theory Spec2Isabelle
  imports Main
begin

section \<open>Data model of the auth package\<close>

text \<open>
  The handlers of \<^verbatim>\<open>pkg/server/auth\<close> are embedded as pure functions from a request to
  the ordered list of effects they perform: the calls on the response writer
  (\<^verbatim>\<open>rw.Header().Add\<close>, \<^verbatim>\<open>rw.WriteHeader\<close>, \<^verbatim>\<open>http.Error\<close>, \<^verbatim>\<open>http.SetCookie\<close>,
  \<^verbatim>\<open>http.Redirect\<close>, \<^verbatim>\<open>rw.Write\<close>) and the calls that leave the process (token
  exchange, ID token verification, the provider's user-info endpoint, the cluster
  read, principal resolution, the wrapped handler). What the collaborators answer is
  a parameter (the record \<open>World\<close> and the interface fields of \<open>AuthServer\<close>).
  A Go \<^verbatim>\<open>error\<close> is its message; a pointer that may be nil is an \<open>option\<close>; a method
  call through a nil \<^verbatim>\<open>*oidc.Provider\<close> is a panic. Calls on the logger are left out.
\<close>

type_synonym error = string

datatype 'a go = Ok 'a | Panic

record OIDCConfig =
  IssuerURL :: string
  ClientID :: string
  ClientSecret :: string
  RedirectURL :: string
  TokenDuration :: int

record Endpoint =
  AuthURL :: string
  TokenURL :: string

text \<open>\<^verbatim>\<open>oidc.Provider\<close>: the discovery metadata the handlers read through its methods.\<close>

record Provider =
  authURL :: string
  tokenURL :: string

text \<open>\<^verbatim>\<open>oauth2.Config\<close>, as \<^verbatim>\<open>oauth2Config\<close> fills it.\<close>

record Config =
  oauth2ClientID :: string
  oauth2ClientSecret :: string
  oauth2Endpoint :: Endpoint
  oauth2RedirectURL :: string
  Scopes :: "string list"

datatype go_value = GoString string | GoOther

text \<open>\<^verbatim>\<open>oauth2.Token\<close>; \<open>raw\<close> holds the extra fields of the token response.\<close>

record Token =
  AccessToken :: string
  RefreshToken :: string
  raw :: "(string \<times> go_value) list"

definition Extra :: "Token \<Rightarrow> string \<Rightarrow> go_value option" where
  "Extra t k = map_of (raw t) k"

record Cookie =
  Name :: string
  Value :: string
  CookiePath :: string
  Expires :: int
  HttpOnly :: bool
  Secure :: bool

record UserPrincipal =
  ID :: string
  PrincipalGroups :: "string list"

datatype ctx_key = principalCtxKey | otherCtxKey string

datatype ctx_value = PrincipalPtr "UserPrincipal option" | OtherValue string

text \<open>A \<^verbatim>\<open>context.Context\<close>: the values attached to it, the latest first.\<close>

type_synonym ctx = "(ctx_key \<times> ctx_value) list"

record URL =
  Path :: string
  Query :: "(string \<times> string) list"
  URLString :: string

record Request =
  Method :: string
  RequestURL :: URL
  Form :: "(string \<times> string) list"
  Cookies :: "(string \<times> string) list"
  Body :: string
  Ctx :: ctx

text \<open>\<^verbatim>\<open>r.FormValue(key)\<close>: the first value of the key, the empty string when absent.\<close>

definition FormValue :: "Request \<Rightarrow> string \<Rightarrow> string" where
  "FormValue r k = (case map_of (Form r) k of None \<Rightarrow> [] | Some v \<Rightarrow> v)"

text \<open>\<^verbatim>\<open>r.Cookie(name)\<close>: the value of the first cookie of that name, \<open>None\<close> for
  \<^verbatim>\<open>http.ErrNoCookie\<close>.\<close>

definition CookieNamed :: "Request \<Rightarrow> string \<Rightarrow> string option" where
  "CookieNamed r n = map_of (Cookies r) n"

text \<open>\<^verbatim>\<open>r.URL.Query().Get(key)\<close>.\<close>

definition QueryGet :: "URL \<Rightarrow> string \<Rightarrow> string" where
  "QueryGet u k = (case map_of (Query u) k of None \<Rightarrow> [] | Some v \<Rightarrow> v)"

record Claims =
  Subject :: string

record TokenSignerVerifier =
  Sign :: "error + string"
  Verify :: "string \<Rightarrow> error + Claims"

text \<open>A \<^verbatim>\<open>corev1.Secret\<close> by its \<^verbatim>\<open>Data\<close> map.\<close>

type_synonym Secret = "(string \<times> string) list"

record AuthServer =
  provider :: "Provider option"
  config :: OIDCConfig
  kubernetesClient :: "string \<Rightarrow> string \<Rightarrow> error + Secret"
  tokenSignerVerifier :: TokenSignerVerifier

text \<open>\<^verbatim>\<open>oidc.IDTokenVerifier\<close>: the provider and the client id it was made for.\<close>

record IDTokenVerifier =
  verifierProvider :: Provider
  verifierClientID :: string

record LoginRequest =
  Password :: string

text \<open>\<^verbatim>\<open>oidc.UserInfo\<close>, the answer of the provider's user-info endpoint.\<close>

record ProviderInfo =
  InfoSubject :: string
  InfoEmail :: string

datatype PrincipalGetter =
    JWTAdminCookiePrincipalGetter TokenSignerVerifier string
  | JWTAuthorizationHeaderPrincipalGetter IDTokenVerifier
  | JWTCookiePrincipalGetter IDTokenVerifier string

datatype effect =
    AddHeader string string
  | WriteHeader nat
  | HttpError string nat
  | SetCookie Cookie
  | Redirect string nat
  | Write string
  | ServeNext Request
  | PrincipalCall Request
  | ExchangeCall Config string
  | VerifyCall IDTokenVerifier string
  | UserInfoCall Provider string
  | KubernetesGet string string

datatype outcome = Done "effect list" | Panicked "effect list"

text \<open>The collaborators outside the repository's files, by what they answer.\<close>

record World =
  NewProvider :: "string \<Rightarrow> error + Provider"
  RandRead :: "nat \<Rightarrow> error + string"
  Now :: int
  Exchange :: "Config \<Rightarrow> string \<Rightarrow> error + Token"
  VerifyIDToken :: "IDTokenVerifier \<Rightarrow> string \<Rightarrow> error option"
  ProviderUserInfo :: "Provider \<Rightarrow> string \<Rightarrow> error + ProviderInfo"
  AuthCodeURL :: "Config \<Rightarrow> string \<Rightarrow> string"
  DecodeLoginRequest :: "string \<Rightarrow> error + LoginRequest"
  CompareHashAndPassword :: "string \<Rightarrow> string \<Rightarrow> error option"
  MultiPrincipal :: "PrincipalGetter list \<Rightarrow> Request \<Rightarrow> UserPrincipal option \<times> error option"

text \<open>The status line of a response: the first call that writes the header decides
  it, and a response nobody wrote a header for is a 200.\<close>

fun statusOf :: "effect list \<Rightarrow> nat" where
  "statusOf [] = 200"
| "statusOf (WriteHeader n # es) = n"
| "statusOf (HttpError m n # es) = n"
| "statusOf (Redirect u n # es) = n"
| "statusOf (Write b # es) = 200"
| "statusOf (e # es) = statusOf es"

section \<open>Standard library: encoding/base64\<close>

text \<open>\<^verbatim>\<open>base64.StdEncoding\<close>: the alphabet of RFC 4648 with \<open>=\<close> padding, not strict.\<close>

definition encodeStd :: string where
  "encodeStd = ''ABCDEFGHIJKLMNOPQRSTUVWXYZabcdefghijklmnopqrstuvwxyz0123456789+/''"

definition padChar :: char where
  "padChar = CHR ''=''"

fun EncodeToString :: "string \<Rightarrow> string" where
  "EncodeToString (a # b # c # src) =
     (let val = of_char a * 65536 + of_char b * 256 + of_char c
      in encodeStd ! (val div 262144) # encodeStd ! (val div 4096 mod 64)
         # encodeStd ! (val div 64 mod 64) # encodeStd ! (val mod 64)
         # EncodeToString src)"
| "EncodeToString [a, b] =
     (let val = of_char a * 65536 + of_char b * 256
      in [encodeStd ! (val div 262144), encodeStd ! (val div 4096 mod 64),
          encodeStd ! (val div 64 mod 64), padChar])"
| "EncodeToString [a] =
     (let val = of_char a * 65536
      in [encodeStd ! (val div 262144), encodeStd ! (val div 4096 mod 64),
          padChar, padChar])"
| "EncodeToString [] = []"

fun indexOf :: "'a \<Rightarrow> 'a list \<Rightarrow> nat option" where
  "indexOf x [] = None"
| "indexOf x (y # ys) = (if x = y then Some 0 else map_option Suc (indexOf x ys))"

definition decodeMap :: "char \<Rightarrow> nat option" where
  "decodeMap c = indexOf c encodeStd"

text \<open>The bytes of one quantum of four sextets.\<close>

definition quantum :: "nat \<Rightarrow> nat \<Rightarrow> nat \<Rightarrow> nat \<Rightarrow> string" where
  "quantum x y z u =
     (let val = x * 262144 + y * 4096 + z * 64 + u
      in [char_of (val div 65536), char_of (val div 256), char_of val])"

text \<open>\<^verbatim>\<open>decodeQuantum\<close> over the input without its line ends: a quantum has four
  characters; padding may only end the last one, as \<open>x=\<close> or \<open>==\<close>.\<close>

fun decodeQuanta :: "string \<Rightarrow> string option" where
  "decodeQuanta (a # b # c # d # src) =
     (case (decodeMap a, decodeMap b) of
        (Some x, Some y) \<Rightarrow>
          (case decodeMap c of
             Some z \<Rightarrow>
               (case decodeMap d of
                  Some u \<Rightarrow> map_option ((@) (quantum x y z u)) (decodeQuanta src)
                | None \<Rightarrow>
                    if d = padChar \<and> src = [] then Some (take 2 (quantum x y z 0))
                    else None)
           | None \<Rightarrow>
               if c = padChar \<and> d = padChar \<and> src = [] then Some (take 1 (quantum x y 0 0))
               else None)
      | _ \<Rightarrow> None)"
| "decodeQuanta [] = Some []"
| "decodeQuanta src = None"

definition DecodeString :: "string \<Rightarrow> error + string" where
  "DecodeString s =
     (case decodeQuanta (filter (\<lambda>c. c \<noteq> CHR 0x0A \<and> c \<noteq> CHR 0x0D) s) of
        None \<Rightarrow> Inl ''illegal base64 data''
      | Some b \<Rightarrow> Inr b)"



section \<open>Standard library: unicode/utf8 and unicode/utf16\<close>

definition RuneError :: nat where
  "RuneError = 0xFFFD"

text \<open>The range the second byte of a sequence must lie in, by its first byte.\<close>

definition acceptRange :: "nat \<Rightarrow> nat \<times> nat" where
  "acceptRange b0 =
     (if b0 = 0xE0 then (0xA0, 0xBF)
      else if b0 = 0xED then (0x80, 0x9F)
      else if b0 = 0xF0 then (0x90, 0xBF)
      else if b0 = 0xF4 then (0x80, 0x8F)
      else (0x80, 0xBF))"

definition inRange :: "nat \<times> nat \<Rightarrow> nat \<Rightarrow> bool" where
  "inRange lh b = (fst lh \<le> b \<and> b \<le> snd lh)"

text \<open>\<^verbatim>\<open>utf8.DecodeRuneInString\<close> on the byte values: the rune and its width;
  \<open>(RuneError, 1)\<close> for a byte that starts no valid sequence.\<close>

fun decodeBytes :: "nat list \<Rightarrow> nat \<times> nat" where
  "decodeBytes [] = (RuneError, 0)"
| "decodeBytes (b0 # bs) =
     (if b0 < 0x80 then (b0, 1)
      else if b0 < 0xC2 \<or> 0xF4 < b0 then (RuneError, 1)
      else
        (case bs of
           [] \<Rightarrow> (RuneError, 1)
         | b1 # bs1 \<Rightarrow>
             if \<not> inRange (acceptRange b0) b1 then (RuneError, 1)
             else if b0 < 0xE0 then (b0 mod 32 * 64 + b1 mod 64, 2)
             else
               (case bs1 of
                  [] \<Rightarrow> (RuneError, 1)
                | b2 # bs2 \<Rightarrow>
                    if \<not> inRange (0x80, 0xBF) b2 then (RuneError, 1)
                    else if b0 < 0xF0
                    then (b0 mod 16 * 4096 + b1 mod 64 * 64 + b2 mod 64, 3)
                    else
                      (case bs2 of
                         [] \<Rightarrow> (RuneError, 1)
                       | b3 # bs3 \<Rightarrow>
                           if \<not> inRange (0x80, 0xBF) b3 then (RuneError, 1)
                           else (b0 mod 8 * 262144 + b1 mod 64 * 4096
                                   + b2 mod 64 * 64 + b3 mod 64, 4)))))"

definition DecodeRune :: "string \<Rightarrow> nat \<times> nat" where
  "DecodeRune s = decodeBytes (map of_char (take 4 s))"

text \<open>\<^verbatim>\<open>utf8.EncodeRune\<close>: a surrogate or a value past \<^verbatim>\<open>MaxRune\<close> is written as
  \<open>RuneError\<close>.\<close>

definition EncodeRune :: "nat \<Rightarrow> string" where
  "EncodeRune r =
     (if r \<le> 0x7F then [char_of r]
      else if r \<le> 0x7FF then [char_of (0xC0 + r div 64), char_of (0x80 + r mod 64)]
      else if 0x10FFFF < r \<or> (0xD800 \<le> r \<and> r \<le> 0xDFFF) then [CHR 0xEF, CHR 0xBF, CHR 0xBD]
      else if r \<le> 0xFFFF
      then [char_of (0xE0 + r div 4096), char_of (0x80 + r div 64 mod 64),
            char_of (0x80 + r mod 64)]
      else [char_of (0xF0 + r div 262144), char_of (0x80 + r div 4096 mod 64),
            char_of (0x80 + r div 64 mod 64), char_of (0x80 + r mod 64)])"

definition IsSurrogate :: "nat \<Rightarrow> bool" where
  "IsSurrogate r = (0xD800 \<le> r \<and> r < 0xE000)"

text \<open>\<^verbatim>\<open>utf16.DecodeRune\<close>; \<open>None\<close> stands for the \<open>-1\<close> of a failed \<^verbatim>\<open>getu4\<close>.\<close>

definition utf16DecodeRune :: "nat \<Rightarrow> nat option \<Rightarrow> nat" where
  "utf16DecodeRune r1 r2 =
     (case r2 of
        None \<Rightarrow> RuneError
      | Some r2' \<Rightarrow>
          if 0xD800 \<le> r1 \<and> r1 < 0xDC00 \<and> 0xDC00 \<le> r2' \<and> r2' < 0xE000
          then (r1 - 0xD800) * 1024 + (r2' - 0xDC00) + 0x10000
          else RuneError)"

text \<open>\<^verbatim>\<open>utf8.ValidString\<close>: no byte of the string decodes to \<open>(RuneError, 1)\<close>.\<close>

function ValidString :: "string \<Rightarrow> bool" where
  "ValidString [] = True"
| "ValidString (c # cs) =
     (if (of_char c :: nat) < 0x80 then ValidString cs
      else
        (case DecodeRune (c # cs) of
           (r, n) \<Rightarrow> \<not> (r = RuneError \<and> n = 1) \<and> ValidString (drop (n - 1) cs)))"
  by pat_completeness auto
termination
  by (relation "measure length") auto

text \<open>The string with every byte that starts no valid sequence replaced by the
  encoding of \<open>RuneError\<close>; this is what \<^verbatim>\<open>encoding/json\<close> makes of a string on the way
  through \<^verbatim>\<open>Marshal\<close> and \<^verbatim>\<open>Unmarshal\<close>.\<close>

function coerceUTF8 :: "string \<Rightarrow> string" where
  "coerceUTF8 [] = []"
| "coerceUTF8 (c # cs) =
     (if (of_char c :: nat) < 0x80 then c # coerceUTF8 cs
      else
        (case DecodeRune (c # cs) of
           (r, n) \<Rightarrow>
             if r = RuneError \<and> n = 1 then EncodeRune RuneError @ coerceUTF8 cs
             else take n (c # cs) @ coerceUTF8 (drop (n - 1) cs)))"
  by pat_completeness auto
termination
  by (relation "measure length") auto

section \<open>Standard library: encoding/json (Go 1.17)\<close>

definition quote :: char where
  "quote = CHR 0x22"

definition backslash :: char where
  "backslash = CHR 0x5C"

definition hex :: string where
  "hex = ''0123456789abcdef''"

text \<open>\<^verbatim>\<open>htmlSafeSet\<close>: the ASCII bytes written as they are.\<close>

definition htmlSafeSet :: "nat \<Rightarrow> bool" where
  "htmlSafeSet b =
     (0x20 \<le> b \<and> b < 0x80 \<and> b \<noteq> 0x22 \<and> b \<noteq> 0x26 \<and> b \<noteq> 0x3C \<and> b \<noteq> 0x3E \<and> b \<noteq> 0x5C)"

text \<open>The body of \<^verbatim>\<open>encodeState.string\<close> with \<^verbatim>\<open>escapeHTML\<close> set, between the quotes.\<close>

function jsonEscape :: "string \<Rightarrow> string" where
  "jsonEscape [] = []"
| "jsonEscape (c # cs) =
     (let b = of_char c :: nat in
      if b < 0x80 then
        (if htmlSafeSet b then c # jsonEscape cs
         else if c = backslash \<or> c = quote then backslash # c # jsonEscape cs
         else if b = 0x0A then backslash # CHR ''n'' # jsonEscape cs
         else if b = 0x0D then backslash # CHR ''r'' # jsonEscape cs
         else if b = 0x09 then backslash # CHR ''t'' # jsonEscape cs
         else backslash # CHR ''u'' # CHR ''0'' # CHR ''0'' # hex ! (b div 16) # hex ! (b mod 16)
              # jsonEscape cs)
      else
        (case DecodeRune (c # cs) of
           (r, n) \<Rightarrow>
             if r = RuneError \<and> n = 1
             then backslash # ''ufffd'' @ jsonEscape cs
             else if r = 0x2028 \<or> r = 0x2029
             then backslash # ''u202'' @ hex ! (r mod 16) # jsonEscape (drop (n - 1) cs)
             else take n (c # cs) @ jsonEscape (drop (n - 1) cs)))"
  by pat_completeness auto
termination
  by (relation "measure length") auto

definition jsonString :: "string \<Rightarrow> string" where
  "jsonString s = quote # jsonEscape s @ [quote]"

definition hexValue :: "char \<Rightarrow> nat option" where
  "hexValue c =
     (let b = of_char c :: nat in
      if 0x30 \<le> b \<and> b \<le> 0x39 then Some (b - 0x30)
      else if 0x61 \<le> b \<and> b \<le> 0x66 then Some (b - 0x61 + 10)
      else if 0x41 \<le> b \<and> b \<le> 0x46 then Some (b - 0x41 + 10)
      else None)"

text \<open>\<^verbatim>\<open>getu4\<close>: the value of a leading \<^verbatim>\<open>\uXXXX\<close>.\<close>

definition getu4 :: "string \<Rightarrow> nat option" where
  "getu4 s =
     (case s of
        c0 # c1 # h1 # h2 # h3 # h4 # _ \<Rightarrow>
          if c0 = backslash \<and> c1 = CHR ''u'' then
            (case (hexValue h1, hexValue h2, hexValue h3, hexValue h4) of
               (Some a, Some b, Some c, Some d) \<Rightarrow> Some (a * 4096 + b * 256 + c * 16 + d)
             | _ \<Rightarrow> None)
          else None
      | _ \<Rightarrow> None)"

text \<open>\<^verbatim>\<open>unquote\<close>, on the text between the quotes of a string literal.\<close>

function unquote :: "string \<Rightarrow> string option" where
  "unquote [] = Some []"
| "unquote (c # cs) =
     (if c = backslash then
        (case cs of
           [] \<Rightarrow> None
         | e # cs' \<Rightarrow>
             if e = quote \<or> e = backslash \<or> e = CHR ''/'' \<or> e = CHR 0x27
             then map_option ((#) e) (unquote cs')
             else if e = CHR ''b'' then map_option ((#) (CHR 0x08)) (unquote cs')
             else if e = CHR ''f'' then map_option ((#) (CHR 0x0C)) (unquote cs')
             else if e = CHR ''n'' then map_option ((#) (CHR 0x0A)) (unquote cs')
             else if e = CHR ''r'' then map_option ((#) (CHR 0x0D)) (unquote cs')
             else if e = CHR ''t'' then map_option ((#) (CHR 0x09)) (unquote cs')
             else if e = CHR ''u'' then
               (case getu4 (c # cs) of
                  None \<Rightarrow> None
                | Some rr \<Rightarrow>
                    if IsSurrogate rr
                       \<and> utf16DecodeRune rr (getu4 (drop 5 cs)) \<noteq> RuneError
                    then map_option ((@) (EncodeRune (utf16DecodeRune rr (getu4 (drop 5 cs)))))
                           (unquote (drop 11 cs))
                    else map_option
                           ((@) (EncodeRune (if IsSurrogate rr then RuneError else rr)))
                           (unquote (drop 5 cs)))
             else None)
      else if c = quote \<or> (of_char c :: nat) < 0x20 then None
      else if (of_char c :: nat) < 0x80 then map_option ((#) c) (unquote cs)
      else
        (case DecodeRune (c # cs) of
           (rr, n) \<Rightarrow> map_option ((@) (EncodeRune rr)) (unquote (drop (n - 1) cs))))"
  by pat_completeness auto
termination
  by (relation "measure length") auto


datatype json =
    JNull
  | JBool bool
  | JNumber string
  | JString string
  | JArray "json list"
  | JObject "(string \<times> json) list"

definition isSpace :: "char \<Rightarrow> bool" where
  "isSpace c = (c = CHR '' '' \<or> c = CHR 0x09 \<or> c = CHR 0x0D \<or> c = CHR 0x0A)"

definition isDigit :: "char \<Rightarrow> bool" where
  "isDigit c = (0x30 \<le> (of_char c :: nat) \<and> (of_char c :: nat) \<le> 0x39)"

definition skipSpace :: "string \<Rightarrow> string" where
  "skipSpace s = dropWhile isSpace s"

text \<open>The scanner inside a string literal: the text up to the closing quote, and
  what follows the quote. A control character, an unknown escape or a \<^verbatim>\<open>\u\<close> without
  four hexadecimal digits is a syntax error.\<close>

fun scanString :: "string \<Rightarrow> (string \<times> string) option" where
  "scanString [] = None"
| "scanString (c # cs) =
     (if c = quote then Some ([], cs)
      else if c = backslash then
        (case cs of
           [] \<Rightarrow> None
         | e # cs' \<Rightarrow>
             if e \<in> set [CHR ''b'', CHR ''f'', CHR ''n'', CHR ''r'', CHR ''t'', backslash,
                          CHR ''/'', quote]
             then map_option (\<lambda>(lit, rest). (c # e # lit, rest)) (scanString cs')
             else if e = CHR ''u'' then
               (case cs' of
                  h1 # h2 # h3 # h4 # cs'' \<Rightarrow>
                    if hexValue h1 \<noteq> None \<and> hexValue h2 \<noteq> None \<and> hexValue h3 \<noteq> None
                       \<and> hexValue h4 \<noteq> None
                    then map_option (\<lambda>(lit, rest). (c # e # h1 # h2 # h3 # h4 # lit, rest))
                           (scanString cs'')
                    else None
                | _ \<Rightarrow> None)
             else None)
      else if (of_char c :: nat) < 0x20 then None
      else map_option (\<lambda>(lit, rest). (c # lit, rest)) (scanString cs))"

text \<open>A string literal after its opening quote, unquoted.\<close>

definition parseString :: "string \<Rightarrow> (string \<times> string) option" where
  "parseString s =
     (case scanString s of
        None \<Rightarrow> None
      | Some (lit, rest) \<Rightarrow>
          (case unquote lit of None \<Rightarrow> None | Some v \<Rightarrow> Some (v, rest)))"

definition takeDigits :: "string \<Rightarrow> string \<times> string" where
  "takeDigits s = (takeWhile isDigit s, dropWhile isDigit s)"

text \<open>A number literal: an optional minus, \<open>0\<close> or a digit sequence that does not
  start with \<open>0\<close>, an optional fraction, an optional exponent.\<close>

definition scanNumber :: "string \<Rightarrow> (string \<times> string) option" where
  "scanNumber s =
     (let (sign, s1) = (case s of c # t \<Rightarrow> if c = CHR ''-'' then ([c], t) else ([], s) | [] \<Rightarrow> ([], s));
          (ds, s2) = takeDigits s1
      in if ds = [] then None
         else
           (let (ip, s2') = (if hd ds = CHR ''0'' then ([hd ds], tl ds @ s2) else (ds, s2));
                frac = (case s2' of
                          c # t \<Rightarrow>
                            if c = CHR ''.'' then
                              (let (fs, s3) = takeDigits t
                               in if fs = [] then None else Some (c # fs, s3))
                            else Some ([], s2')
                        | [] \<Rightarrow> Some ([], s2'))
            in case frac of
                 None \<Rightarrow> None
               | Some (fp, s3) \<Rightarrow>
                   (case s3 of
                      c # t \<Rightarrow>
                        if c = CHR ''e'' \<or> c = CHR ''E'' then
                          (let (es, t') = (case t of
                                             d # u \<Rightarrow>
                                               if d = CHR ''+'' \<or> d = CHR ''-'' then ([d], u)
                                               else ([], t)
                                           | [] \<Rightarrow> ([], t));
                               (xs, s4) = takeDigits t'
                           in if xs = [] then None
                              else Some (sign @ ip @ fp @ c # es @ xs, s4))
                        else Some (sign @ ip @ fp, s3)
                    | [] \<Rightarrow> Some (sign @ ip @ fp, s3))))"

definition maxNestingDepth :: nat where
  "maxNestingDepth = 10000"

text \<open>The value at the head of the input and the rest of the input. The first
  argument bounds the number of nested calls, and is set to the length of the input
  by \<open>parseJSON\<close>; the second is the number of arrays and objects the value lies in.\<close>

fun parseValue :: "nat \<Rightarrow> nat \<Rightarrow> string \<Rightarrow> (json \<times> string) option"
  and parseElements :: "nat \<Rightarrow> nat \<Rightarrow> string \<Rightarrow> (json list \<times> string) option"
  and parseMembers :: "nat \<Rightarrow> nat \<Rightarrow> string \<Rightarrow> ((string \<times> json) list \<times> string) option"
where
  "parseValue 0 d s = None"
| "parseValue (Suc fuel) d s =
     (case skipSpace s of
        [] \<Rightarrow> None
      | c # cs \<Rightarrow>
          if c = CHR ''{'' then
            (if maxNestingDepth \<le> d then None
             else
               (case skipSpace cs of
                  [] \<Rightarrow> None
                | c' # cs' \<Rightarrow>
                    if c' = CHR ''}'' then Some (JObject [], cs')
                    else map_option (\<lambda>(ms, rest). (JObject ms, rest))
                           (parseMembers fuel (Suc d) cs)))
          else if c = CHR ''['' then
            (if maxNestingDepth \<le> d then None
             else
               (case skipSpace cs of
                  [] \<Rightarrow> None
                | c' # cs' \<Rightarrow>
                    if c' = CHR '']'' then Some (JArray [], cs')
                    else map_option (\<lambda>(vs, rest). (JArray vs, rest))
                           (parseElements fuel (Suc d) cs)))
          else if c = quote then
            map_option (\<lambda>(v, rest). (JString v, rest)) (parseString cs)
          else if c = CHR ''-'' \<or> isDigit c then
            map_option (\<lambda>(v, rest). (JNumber v, rest)) (scanNumber (c # cs))
          else if take 4 (c # cs) = ''true'' then Some (JBool True, drop 3 cs)
          else if take 5 (c # cs) = ''false'' then Some (JBool False, drop 4 cs)
          else if take 4 (c # cs) = ''null'' then Some (JNull, drop 3 cs)
          else None)"
| "parseElements 0 d s = None"
| "parseElements (Suc fuel) d s =
     (case parseValue fuel d s of
        None \<Rightarrow> None
      | Some (v, rest) \<Rightarrow>
          (case skipSpace rest of
             [] \<Rightarrow> None
           | c # cs \<Rightarrow>
               if c = CHR '']'' then Some ([v], cs)
               else if c = CHR '','' then
                 map_option (\<lambda>(vs, rest'). (v # vs, rest')) (parseElements fuel d cs)
               else None))"
| "parseMembers 0 d s = None"
| "parseMembers (Suc fuel) d s =
     (case skipSpace s of
        [] \<Rightarrow> None
      | q # s1 \<Rightarrow>
          if q \<noteq> quote then None
          else
            (case parseString s1 of
               None \<Rightarrow> None
             | Some (k, s2) \<Rightarrow>
                 (case skipSpace s2 of
                    [] \<Rightarrow> None
                  | colon # s3 \<Rightarrow>
                      if colon \<noteq> CHR '':'' then None
                      else
                        (case parseValue fuel d s3 of
                           None \<Rightarrow> None
                         | Some (v, rest) \<Rightarrow>
                             (case skipSpace rest of
                                [] \<Rightarrow> None
                              | c # cs \<Rightarrow>
                                  if c = CHR ''}'' then Some ([(k, v)], cs)
                                  else if c = CHR '','' then
                                    map_option (\<lambda>(ms, rest'). ((k, v) # ms, rest'))
                                      (parseMembers fuel d cs)
                                  else None)))))"

text \<open>\<^verbatim>\<open>checkValid\<close> and the scan of the one value of the input: \<open>None\<close> is a
  \<^verbatim>\<open>SyntaxError\<close>.\<close>

definition parseJSON :: "string \<Rightarrow> json option" where
  "parseJSON data =
     (case parseValue (2 * length data + 2) 0 data of
        None \<Rightarrow> None
      | Some (v, rest) \<Rightarrow> if skipSpace rest = [] then Some v else None)"

text \<open>\<^verbatim>\<open>strings.Join\<close>.\<close>

fun Join :: "string list \<Rightarrow> string \<Rightarrow> string" where
  "Join [] sep = []"
| "Join [x] sep = x"
| "Join (x # y # ys) sep = x @ sep @ Join (y # ys) sep"

text \<open>The comparison a struct field's name is matched to an object key by, where
  no key is equal to a name: ASCII letters match in either case.\<close>

definition isLetter :: "char \<Rightarrow> bool" where
  "isLetter c =
     ((0x61 \<le> (of_char c :: nat) \<and> (of_char c :: nat) \<le> 0x7A)
      \<or> (0x41 \<le> (of_char c :: nat) \<and> (of_char c :: nat) \<le> 0x5A))"

definition caseMask :: "char \<Rightarrow> nat" where
  "caseMask c = (of_char c :: nat) div 64 * 64 + (of_char c :: nat) mod 32"

definition equalFold :: "string \<Rightarrow> string \<Rightarrow> bool" where
  "equalFold name key =
     list_all2 (\<lambda>sb tb. sb = tb \<or> (isLetter sb \<and> caseMask sb = caseMask tb)) name key"


section \<open>server.go: the JSON of SessionState and UserInfo\<close>

record SessionState =
  Nonce :: string
  ReturnURL :: string

record UserInfo =
  Email :: string
  Groups :: "string list option"

text \<open>\<^verbatim>\<open>json.Marshal\<close> of a \<^verbatim>\<open>SessionState\<close>: both fields are strings, so no error
  arises.\<close>

definition Marshal_SessionState :: "SessionState \<Rightarrow> error + string" where
  "Marshal_SessionState st =
     Inr (''{'' @ jsonString ''n'' @ '':'' @ jsonString (Nonce st) @ '',''
          @ jsonString ''return_url'' @ '':'' @ jsonString (ReturnURL st) @ ''}'')"

text \<open>\<^verbatim>\<open>json.Marshal\<close> of a \<^verbatim>\<open>UserInfo\<close>: a nil slice is written \<open>null\<close>.\<close>

definition Marshal_UserInfo :: "UserInfo \<Rightarrow> error + string" where
  "Marshal_UserInfo ui =
     Inr (''{'' @ jsonString ''email'' @ '':'' @ jsonString (Email ui) @ '',''
          @ jsonString ''groups'' @ '':''
          @ (case Groups ui of
               None \<Rightarrow> ''null''
             | Some gs \<Rightarrow> ''['' @ Join (map jsonString gs) '','' @ '']'')
          @ ''}'')"

text \<open>One member of an object stored into a \<^verbatim>\<open>SessionState\<close>: a string goes to the
  field its key names, \<open>null\<close> and unknown keys change nothing, any other value for a
  field is an \<^verbatim>\<open>UnmarshalTypeError\<close>, of which the first is kept.\<close>

definition typeError :: "string \<Rightarrow> error" where
  "typeError field = ''json: cannot unmarshal into Go struct field SessionState.'' @ field
                     @ '' of type string''"

definition saveError :: "error option \<Rightarrow> error \<Rightarrow> error option" where
  "saveError saved err = (case saved of None \<Rightarrow> Some err | Some e \<Rightarrow> Some e)"

definition storeMember ::
  "SessionState \<times> error option \<Rightarrow> string \<times> json \<Rightarrow> SessionState \<times> error option" where
  "storeMember acc m =
     (case (acc, m) of
        ((st, saved), (key, v)) \<Rightarrow>
          if equalFold ''n'' key then
            (case v of
               JString x \<Rightarrow> (st\<lparr>Nonce := x\<rparr>, saved)
             | JNull \<Rightarrow> (st, saved)
             | _ \<Rightarrow> (st, saveError saved (typeError ''n'')))
          else if equalFold ''return_url'' key then
            (case v of
               JString x \<Rightarrow> (st\<lparr>ReturnURL := x\<rparr>, saved)
             | JNull \<Rightarrow> (st, saved)
             | _ \<Rightarrow> (st, saveError saved (typeError ''return_url'')))
          else (st, saved))"

text \<open>\<^verbatim>\<open>json.Unmarshal(data, &state)\<close>: the state given is the one the fields are
  stored into.\<close>

definition Unmarshal_SessionState :: "string \<Rightarrow> SessionState \<Rightarrow> error + SessionState" where
  "Unmarshal_SessionState data st =
     (case parseJSON data of
        None \<Rightarrow> Inl ''invalid character in JSON input''
      | Some (JObject ms) \<Rightarrow>
          (case foldl storeMember (st, None) ms of
             (st', None) \<Rightarrow> Inr st'
           | (st', Some err) \<Rightarrow> Inl err)
      | Some JNull \<Rightarrow> Inr st
      | Some v \<Rightarrow> Inl ''json: cannot unmarshal into Go value of type auth.SessionState'')"


text \<open>The state value as \<^verbatim>\<open>startAuthFlow\<close> encodes it and as \<^verbatim>\<open>Callback\<close> decodes it:
  the two library calls each of them makes, in their order.\<close>

definition encodeState :: "string \<Rightarrow> string \<Rightarrow> error + string" where
  "encodeState nonce returnUrl =
     (case Marshal_SessionState \<lparr>Nonce = nonce, ReturnURL = returnUrl\<rparr> of
        Inl err \<Rightarrow> Inl err
      | Inr b \<Rightarrow> Inr (EncodeToString b))"

definition decodeState :: "string \<Rightarrow> error + SessionState" where
  "decodeState v =
     (case DecodeString v of
        Inl err \<Rightarrow> Inl err
      | Inr b \<Rightarrow> Unmarshal_SessionState b \<lparr>Nonce = [], ReturnURL = []\<rparr>)"


section \<open>auth.go\<close>

definition StateCookieName :: string where
  "StateCookieName = ''state''"

definition IDTokenCookieName :: string where
  "IDTokenCookieName = ''id_token''"

definition RefreshTokenCookieName :: string where
  "RefreshTokenCookieName = ''refresh_token''"

definition scopeProfile :: string where
  "scopeProfile = ''profile''"

definition scopeEmail :: string where
  "scopeEmail = ''email''"

definition scopeGroups :: string where
  "scopeGroups = ''groups''"

definition ScopeOpenID :: string where
  "ScopeOpenID = ''openid''"

definition ScopeOfflineAccess :: string where
  "ScopeOfflineAccess = ''offline_access''"

definition Principal :: "ctx \<Rightarrow> UserPrincipal option" where
  "Principal ctx =
     (case map_of ctx principalCtxKey of
        Some (PrincipalPtr p) \<Rightarrow> p
      | _ \<Rightarrow> None)"

definition WithPrincipal :: "ctx \<Rightarrow> UserPrincipal option \<Rightarrow> ctx" where
  "WithPrincipal ctx p = (principalCtxKey, PrincipalPtr p) # ctx"

fun IsPublicRoute :: "URL \<Rightarrow> string list \<Rightarrow> bool" where
  "IsPublicRoute u [] = False"
| "IsPublicRoute u (pr # publicRoutes) =
     (if Path u = pr then True else IsPublicRoute u publicRoutes)"

definition oidcEnabled :: "AuthServer \<Rightarrow> bool" where
  "oidcEnabled s = (IssuerURL (config s) \<noteq> [])"

definition verifier :: "AuthServer \<Rightarrow> IDTokenVerifier go" where
  "verifier s =
     (case provider s of
        None \<Rightarrow> Panic
      | Some p \<Rightarrow> Ok \<lparr>verifierProvider = p, verifierClientID = ClientID (config s)\<rparr>)"

text \<open>The getters \<^verbatim>\<open>WithAPIAuth\<close> collects before it returns the handler.\<close>

definition apiAuthGetters :: "AuthServer \<Rightarrow> PrincipalGetter list go" where
  "apiAuthGetters srv =
     (let adminAuth = JWTAdminCookiePrincipalGetter (tokenSignerVerifier srv) IDTokenCookieName;
          multi = [adminAuth]
      in if oidcEnabled srv then
           (case verifier srv of
              Panic \<Rightarrow> Panic
            | Ok v \<Rightarrow>
                Ok (multi @ [JWTAuthorizationHeaderPrincipalGetter v,
                             JWTCookiePrincipalGetter v IDTokenCookieName]))
         else Ok multi)"

text \<open>The handler \<^verbatim>\<open>WithAPIAuth\<close> returns. The call \<^verbatim>\<open>next.ServeHTTP(rw, r')\<close> is the
  effect \<open>ServeNext r'\<close>.\<close>

definition apiAuthHandler ::
  "World \<Rightarrow> PrincipalGetter list \<Rightarrow> string list \<Rightarrow> Request \<Rightarrow> effect list" where
  "apiAuthHandler w multi publicRoutes r =
     (if IsPublicRoute (RequestURL r) publicRoutes then [ServeNext r]
      else
        (case MultiPrincipal w multi r of
           (princ, err) \<Rightarrow>
             (case princ of
                None \<Rightarrow> [PrincipalCall r, HttpError ''Authentication required'' 401]
              | Some p \<Rightarrow>
                  if err \<noteq> None
                  then [PrincipalCall r, HttpError ''Authentication required'' 401]
                  else [PrincipalCall r,
                        ServeNext (r\<lparr>Ctx := WithPrincipal (Ctx r) (Some p)\<rparr>)])))"

definition WithAPIAuth ::
  "World \<Rightarrow> AuthServer \<Rightarrow> string list \<Rightarrow> (Request \<Rightarrow> effect list) go" where
  "WithAPIAuth w srv publicRoutes =
     (case apiAuthGetters srv of
        Panic \<Rightarrow> Panic
      | Ok multi \<Rightarrow> Ok (apiAuthHandler w multi publicRoutes))"

text \<open>What a request's trace says of the wrapped handler and of the resolvers.\<close>

fun forwarded :: "effect list \<Rightarrow> Request list" where
  "forwarded [] = []"
| "forwarded (ServeNext r # es) = r # forwarded es"
| "forwarded (e # es) = forwarded es"

fun resolved :: "effect list \<Rightarrow> bool" where
  "resolved [] = False"
| "resolved (PrincipalCall r # es) = True"
| "resolved (e # es) = resolved es"

section \<open>server.go: construction\<close>

definition NewAuthServer ::
  "World \<Rightarrow> OIDCConfig \<Rightarrow> (string \<Rightarrow> string \<Rightarrow> error + Secret) \<Rightarrow> TokenSignerVerifier
     \<Rightarrow> error + AuthServer" where
  "NewAuthServer w cfg kc tsv =
     (case (if IssuerURL cfg \<noteq> [] then
              (case NewProvider w (IssuerURL cfg) of
                 Inl err \<Rightarrow> Inl (''could not create provider: '' @ err)
               | Inr p \<Rightarrow> Inr (Some p))
            else Inr None) of
        Inl e \<Rightarrow> Inl e
      | Inr prov \<Rightarrow>
          (case RandRead w 64 of
             Inl err \<Rightarrow> Inl (''could not generate random HMAC secret: '' @ err)
           | Inr hmacSecret \<Rightarrow>
               Inr \<lparr>provider = prov, config = cfg, kubernetesClient = kc,
                    tokenSignerVerifier = tsv\<rparr>))"

definition SetRedirectURL :: "AuthServer \<Rightarrow> string \<Rightarrow> AuthServer" where
  "SetRedirectURL s url = s\<lparr>config := (config s)\<lparr>RedirectURL := url\<rparr>\<rparr>"

section \<open>server.go: the handlers\<close>

fun contains :: "string list \<Rightarrow> string \<Rightarrow> bool" where
  "contains [] s = False"
| "contains (v # ss) s = (if v = s then True else contains ss s)"

definition oauth2Config :: "AuthServer \<Rightarrow> string list \<Rightarrow> Config go" where
  "oauth2Config s scopes =
     (let scopes1 = (if \<not> contains scopes ScopeOpenID then scopes @ [ScopeOpenID] else scopes);
          scopes2 = (if \<not> contains scopes1 ScopeOfflineAccess
                     then scopes1 @ [ScopeOfflineAccess] else scopes1);
          scopes3 = (if \<not> contains scopes2 scopeEmail then scopes2 @ [scopeEmail] else scopes2);
          scopes4 = (if \<not> contains scopes3 scopeGroups then scopes3 @ [scopeGroups] else scopes3)
      in case provider s of
           None \<Rightarrow> Panic
         | Some p \<Rightarrow>
             Ok \<lparr>oauth2ClientID = ClientID (config s),
                 oauth2ClientSecret = ClientSecret (config s),
                 oauth2Endpoint = \<lparr>AuthURL = authURL p, TokenURL = tokenURL p\<rparr>,
                 oauth2RedirectURL = RedirectURL (config s),
                 Scopes = scopes4\<rparr>)"

definition createCookie :: "World \<Rightarrow> AuthServer \<Rightarrow> string \<Rightarrow> string \<Rightarrow> Cookie" where
  "createCookie w c name val =
     \<lparr>Name = name, Value = val, CookiePath = ''/'',
      Expires = Now w + TokenDuration (config c), HttpOnly = True, Secure = False\<rparr>"

definition clearCookie :: "string \<Rightarrow> Cookie" where
  "clearCookie name =
     \<lparr>Name = name, Value = [], CookiePath = ''/'', Expires = 0, HttpOnly = False,
      Secure = False\<rparr>"

definition generateNonce :: "World \<Rightarrow> error + string" where
  "generateNonce w =
     (case RandRead w 32 of
        Inl err \<Rightarrow> Inl err
      | Inr b \<Rightarrow> Inr (EncodeToString b))"

definition startAuthFlow :: "World \<Rightarrow> AuthServer \<Rightarrow> Request \<Rightarrow> outcome" where
  "startAuthFlow w c r =
     (case generateNonce w of
        Inl err \<Rightarrow> Done [HttpError (''failed to generate nonce: '' @ err) 500]
      | Inr nonce \<Rightarrow>
          (let returnUrl0 = QueryGet (RequestURL r) ''return_url'';
               returnUrl = (if returnUrl0 = [] then URLString (RequestURL r) else returnUrl0)
           in case Marshal_SessionState \<lparr>Nonce = nonce, ReturnURL = returnUrl\<rparr> of
                Inl err \<Rightarrow> Done [HttpError (''failed to marshal state to JSON: '' @ err) 500]
              | Inr b \<Rightarrow>
                  (let state = EncodeToString b;
                       scopes = [] @ [scopeProfile]
                   in case oauth2Config c scopes of
                        Panic \<Rightarrow> Panicked []
                      | Ok cfg \<Rightarrow>
                          (let authCodeUrl = AuthCodeURL w cfg state
                           in Done [SetCookie (createCookie w c StateCookieName state),
                                    Redirect authCodeUrl 303]))))"

definition OAuth2Flow :: "World \<Rightarrow> AuthServer \<Rightarrow> Request \<Rightarrow> outcome" where
  "OAuth2Flow w s r =
     (if \<not> oidcEnabled s then Done [HttpError ''oidc provider not configured'' 400]
      else startAuthFlow w s r)"

text \<open>The part of \<^verbatim>\<open>Callback\<close> after the exchange has returned a token.\<close>

definition callbackToken ::
  "World \<Rightarrow> AuthServer \<Rightarrow> SessionState \<Rightarrow> Token \<Rightarrow> effect list \<Rightarrow> outcome" where
  "callbackToken w s state token done =
     (case Extra token ''id_token'' of
        Some (GoString rawIDToken) \<Rightarrow>
          (case verifier s of
             Panic \<Rightarrow> Panicked done
           | Ok v \<Rightarrow>
               (case VerifyIDToken w v rawIDToken of
                  Some err \<Rightarrow>
                    Done (done @ [VerifyCall v rawIDToken,
                                  HttpError (''failed to verify ID token: '' @ err) 500])
                | None \<Rightarrow>
                    Done (done @ [VerifyCall v rawIDToken,
                                  SetCookie (createCookie w s IDTokenCookieName rawIDToken)]
                          @ (if RefreshToken token \<noteq> []
                             then [SetCookie (createCookie w s RefreshTokenCookieName
                                                (RefreshToken token))]
                             else [])
                          @ [SetCookie (clearCookie StateCookieName),
                             Redirect (ReturnURL state) 303])))
      | _ \<Rightarrow> Done (done @ [HttpError ''no id_token in token response'' 500]))"

definition Callback :: "World \<Rightarrow> AuthServer \<Rightarrow> Request \<Rightarrow> outcome" where
  "Callback w s r =
     (if Method r \<noteq> ''GET'' then Done [AddHeader ''Allow'' ''GET'', WriteHeader 405]
      else if FormValue r ''error'' \<noteq> [] then Done [WriteHeader 400]
      else
        (let code = FormValue r ''code''
         in if code = [] then Done [WriteHeader 400]
            else
              (case CookieNamed r StateCookieName of
                 None \<Rightarrow> Done [WriteHeader 400]
               | Some cookie \<Rightarrow>
                   if FormValue r ''state'' \<noteq> cookie then Done [WriteHeader 400]
                   else
                     (case DecodeString cookie of
                        Inl err \<Rightarrow> Done [WriteHeader 400]
                      | Inr b \<Rightarrow>
                          (case Unmarshal_SessionState b \<lparr>Nonce = [], ReturnURL = []\<rparr> of
                             Inl err \<Rightarrow> Done [WriteHeader 400]
                           | Inr state \<Rightarrow>
                               (case oauth2Config s [] of
                                  Panic \<Rightarrow> Panicked []
                                | Ok cfg \<Rightarrow>
                                    (case Exchange w cfg code of
                                       Inl err \<Rightarrow>
                                         Done [ExchangeCall cfg code, WriteHeader 500]
                                     | Inr token \<Rightarrow>
                                         callbackToken w s state token
                                           [ExchangeCall cfg code])))))))"

definition SignIn :: "World \<Rightarrow> AuthServer \<Rightarrow> Request \<Rightarrow> outcome" where
  "SignIn w s r =
     (if Method r \<noteq> ''POST'' then Done [AddHeader ''Allow'' ''POST'', WriteHeader 405]
      else
        (case DecodeLoginRequest w (Body r) of
           Inl err \<Rightarrow> Done [HttpError ''Failed to read request body.'' 400]
         | Inr loginRequest \<Rightarrow>
             (case kubernetesClient s ''wego-system'' ''admin-password-hash'' of
                Inl err \<Rightarrow>
                  Done [KubernetesGet ''wego-system'' ''admin-password-hash'',
                        HttpError ''Please ensure that a password has been set.'' 400]
              | Inr hashedSecret \<Rightarrow>
                  (case CompareHashAndPassword w
                          (case map_of hashedSecret ''password'' of None \<Rightarrow> [] | Some h \<Rightarrow> h)
                          (Password loginRequest) of
                     Some err \<Rightarrow>
                       Done [KubernetesGet ''wego-system'' ''admin-password-hash'',
                             WriteHeader 401]
                   | None \<Rightarrow>
                       (case Sign (tokenSignerVerifier s) of
                          Inl err \<Rightarrow>
                            Done [KubernetesGet ''wego-system'' ''admin-password-hash'',
                                  WriteHeader 500]
                        | Inr signed \<Rightarrow>
                            Done [KubernetesGet ''wego-system'' ''admin-password-hash'',
                                  SetCookie (createCookie w s IDTokenCookieName signed),
                                  WriteHeader 200])))))"

definition toJson :: "UserInfo \<Rightarrow> effect list" where
  "toJson ui =
     (case Marshal_UserInfo ui of
        Inl err \<Rightarrow> [HttpError (''failed to marshal to JSON: '' @ err) 500]
      | Inr b \<Rightarrow> [Write b])"

definition UserInfo :: "World \<Rightarrow> AuthServer \<Rightarrow> Request \<Rightarrow> outcome" where
  "UserInfo w s r =
     (if Method r \<noteq> ''GET'' then Done [AddHeader ''Allow'' ''GET'', WriteHeader 405]
      else
        (case CookieNamed r IDTokenCookieName of
           None \<Rightarrow> Done [WriteHeader 400]
         | Some c \<Rightarrow>
             (case Verify (tokenSignerVerifier s) c of
                Inr claims \<Rightarrow> Done (toJson \<lparr>Email = Subject claims, Groups = None\<rparr>)
              | Inl err \<Rightarrow>
                  (case provider s of
                     None \<Rightarrow> Panicked []
                   | Some p \<Rightarrow>
                       (case ProviderUserInfo w p c of
                          Inl err' \<Rightarrow>
                            Done [UserInfoCall p c,
                                  HttpError (''failed to query user info endpoint: '' @ err') 401]
                        | Inr info \<Rightarrow>
                            Done (UserInfoCall p c
                                  # toJson \<lparr>Email = InfoEmail info, Groups = None\<rparr>))))))"

definition Logout :: "World \<Rightarrow> AuthServer \<Rightarrow> Request \<Rightarrow> outcome" where
  "Logout w s r =
     (if Method r \<noteq> ''POST'' then Done [WriteHeader 405]
      else Done [SetCookie (clearCookie IDTokenCookieName), WriteHeader 200])"

text \<open>What a trace holds: the cookies it sets, and the calls to the identity provider.\<close>

fun cookiesSet :: "effect list \<Rightarrow> Cookie list" where
  "cookiesSet [] = []"
| "cookiesSet (SetCookie c # es) = c # cookiesSet es"
| "cookiesSet (e # es) = cookiesSet es"

fun upstream :: "effect \<Rightarrow> bool" where
  "upstream (ExchangeCall c code) = True"
| "upstream (VerifyCall v t) = True"
| "upstream (UserInfoCall p t) = True"
| "upstream e = False"

fun effects :: "outcome \<Rightarrow> effect list" where
  "effects (Done es) = es"
| "effects (Panicked es) = es"

fun panicked :: "outcome \<Rightarrow> bool" where
  "panicked (Done es) = False"
| "panicked (Panicked es) = True"


section \<open>Fixtures\<close>

text \<open>A server without an identity provider, as \<^verbatim>\<open>NewAuthServer\<close> builds it from an
  empty issuer URL, whose collaborators all refuse; and the requests of
  \<^verbatim>\<open>TestWithAPIAuthReturns401ForUnauthenticatedRequests\<close>.\<close>

definition refusingWorld :: World where
  "refusingWorld =
     \<lparr>NewProvider = (\<lambda>u. Inl ''no provider''),
      RandRead = (\<lambda>n. Inr (replicate n (CHR ''r''))),
      Now = 0,
      Exchange = (\<lambda>c code. Inl ''exchange refused''),
      VerifyIDToken = (\<lambda>v t. Some ''bad token''),
      ProviderUserInfo = (\<lambda>p t. Inl ''user info refused''),
      AuthCodeURL = (\<lambda>c st. AuthURL (oauth2Endpoint c) @ ''?state='' @ st),
      DecodeLoginRequest = (\<lambda>b. Inl ''bad body''),
      CompareHashAndPassword = (\<lambda>h p. Some ''mismatch''),
      MultiPrincipal = (\<lambda>gs r. (None, Some ''could not find valid principal''))\<rparr>"

definition refusingSigner :: TokenSignerVerifier where
  "refusingSigner = \<lparr>Sign = Inl ''cannot sign'', Verify = (\<lambda>t. Inl ''invalid token'')\<rparr>"

definition noSecrets :: "string \<Rightarrow> string \<Rightarrow> error + Secret" where
  "noSecrets ns n = Inl ''not found''"

definition emptyConfig :: OIDCConfig where
  "emptyConfig =
     \<lparr>IssuerURL = [], ClientID = [], ClientSecret = [], RedirectURL = [],
      TokenDuration = 1200\<rparr>"

definition localServer :: AuthServer where
  "localServer =
     \<lparr>provider = None, config = emptyConfig, kubernetesClient = noSecrets,
      tokenSignerVerifier = refusingSigner\<rparr>"

definition getRequest :: "string \<Rightarrow> Request" where
  "getRequest p =
     \<lparr>Method = ''GET'', RequestURL = \<lparr>Path = p, Query = [], URLString = p\<rparr>, Form = [],
      Cookies = [], Body = [], Ctx = []\<rparr>"

text \<open>A server with an identity provider, and a world whose collaborators grant one
  authorization code, one ID token, one access token and one password.\<close>

definition oidcProvider :: Provider where
  "oidcProvider =
     \<lparr>authURL = ''https://idp.example/auth'', tokenURL = ''https://idp.example/token''\<rparr>"

definition oidcConfig :: OIDCConfig where
  "oidcConfig =
     \<lparr>IssuerURL = ''https://idp.example'', ClientID = ''gitops'', ClientSecret = ''s3cret'',
      RedirectURL = ''https://gitops.example/oauth2/callback'', TokenDuration = 1200\<rparr>"

definition adminSigner :: TokenSignerVerifier where
  "adminSigner =
     \<lparr>Sign = Inr ''local.token'',
      Verify = (\<lambda>t. if t = ''local.token'' then Inr \<lparr>Subject = ''admin''\<rparr>
                    else Inl ''invalid token'')\<rparr>"

definition adminSecrets :: "string \<Rightarrow> string \<Rightarrow> error + Secret" where
  "adminSecrets ns n =
     (if ns = ''wego-system'' \<and> n = ''admin-password-hash'' then Inr [(''password'', ''hash'')]
      else Inl ''not found'')"

definition oidcServer :: AuthServer where
  "oidcServer =
     \<lparr>provider = Some oidcProvider, config = oidcConfig, kubernetesClient = adminSecrets,
      tokenSignerVerifier = adminSigner\<rparr>"

definition adminServer :: AuthServer where
  "adminServer =
     \<lparr>provider = None, config = emptyConfig, kubernetesClient = adminSecrets,
      tokenSignerVerifier = adminSigner\<rparr>"

definition idpToken :: Token where
  "idpToken =
     \<lparr>AccessToken = ''access'', RefreshToken = ''refresh'',
      raw = [(''id_token'', GoString ''raw.id.token'')]\<rparr>"

definition loginBody :: string where
  "loginBody = ''{'' @ jsonString ''password'' @ '':'' @ jsonString ''let-me-in'' @ ''}''"

definition grantingWorld :: World where
  "grantingWorld =
     \<lparr>NewProvider = (\<lambda>u. Inr oidcProvider),
      RandRead = (\<lambda>n. Inr (replicate n (CHR ''r''))),
      Now = 1000,
      Exchange = (\<lambda>c code. if code = ''code-1'' then Inr idpToken else Inl ''invalid_grant''),
      VerifyIDToken = (\<lambda>v t. if t = ''raw.id.token'' then None else Some ''bad signature''),
      ProviderUserInfo =
        (\<lambda>p t. if t = ''access''
               then Inr \<lparr>InfoSubject = ''u1'', InfoEmail = ''jane@example.com''\<rparr>
               else Inl ''401 Unauthorized''),
      AuthCodeURL = (\<lambda>c st. AuthURL (oauth2Endpoint c) @ ''?state='' @ st),
      DecodeLoginRequest =
        (\<lambda>b. if b = loginBody then Inr \<lparr>Password = ''let-me-in''\<rparr> else Inl ''EOF''),
      CompareHashAndPassword =
        (\<lambda>h p. if h = ''hash'' \<and> p = ''let-me-in'' then None else Some ''mismatch''),
      MultiPrincipal = (\<lambda>gs r. (None, Some ''could not find valid principal''))\<rparr>"

text \<open>Callback requests. The state \<open>e30=\<close> is the base64 of the JSON object \<open>{}\<close>.\<close>

definition callbackRequest :: "string \<Rightarrow> string \<Rightarrow> string \<Rightarrow> Request" where
  "callbackRequest code formState cookieState =
     (getRequest ''/oauth2/callback'')
       \<lparr>Form := [(''code'', code), (''state'', formState)],
        Cookies := [(''state'', cookieState)]\<rparr>"

definition signInRequest :: Request where
  "signInRequest = (getRequest ''/oauth2/sign_in'')\<lparr>Method := ''POST'', Body := loginBody\<rparr>"

definition userInfoRequest :: "string \<Rightarrow> Request" where
  "userInfoRequest token = (getRequest ''/oauth2/userinfo'')\<lparr>Cookies := [(''id_token'', token)]\<rparr>"

text \<open>A world in which the resolvers find the principal \<open>admin\<close>.\<close>

definition adminPrincipal :: UserPrincipal where
  "adminPrincipal = \<lparr>ID = ''admin'', PrincipalGroups = []\<rparr>"

definition admittingWorld :: World where
  "admittingWorld = refusingWorld\<lparr>MultiPrincipal := (\<lambda>gs r. (Some adminPrincipal, None))\<rparr>"


section \<open>services/auth/internal: PKCE and the GitLab URLs\<close>

text \<open>Only the tests of this package are among the sources (\<^verbatim>\<open>gitlab_test.go\<close>); the
  functions they call are modelled from the specification. The random source and
  SHA-256 are parameters.\<close>

datatype pkce_error = InvalidRange | URLParseError

record CodeVerifier =
  RawValue :: string

text \<open>The unreserved characters of RFC 7636: letters, digits, \<open>-\<close>, \<open>.\<close>, \<open>_\<close>, \<open>~\<close>.\<close>

definition unreserved :: "char \<Rightarrow> bool" where
  "unreserved c =
     (isLetter c \<or> isDigit c \<or> c = CHR ''-'' \<or> c = CHR ''.'' \<or> c = CHR ''_'' \<or> c = CHR ''~'')"

definition verifierChars :: string where
  "verifierChars = ''abcdefghijklmnopqrstuvwxyzABCDEFGHIJKLMNOPQRSTUVWXYZ0123456789-._~''"

text \<open>Modelled from the spec: \<^verbatim>\<open>NewCodeVerifier\<close>, which is not among the sources. It
  fails with \<open>InvalidRange\<close> when \<open>minLength > maxLength\<close> or a bound lies outside
  [43, 128]; otherwise the length is drawn from \<open>[minLength, maxLength]\<close> and every
  character from the unreserved set. \<open>rnd i\<close> is the \<open>i\<close>-th draw of the random
  source.\<close>

definition NewCodeVerifier :: "(nat \<Rightarrow> nat) \<Rightarrow> int \<Rightarrow> int \<Rightarrow> pkce_error + CodeVerifier" where
  "NewCodeVerifier rnd minLength maxLength =
     (if minLength > maxLength \<or> minLength < 43 \<or> 128 < minLength
         \<or> maxLength < 43 \<or> 128 < maxLength
      then Inl InvalidRange
      else
        (let n = nat minLength + rnd 0 mod (nat (maxLength - minLength) + 1)
         in Inr \<lparr>RawValue =
                   map (\<lambda>i. verifierChars ! (rnd (Suc i) mod length verifierChars)) [0..<n]\<rparr>))"

text \<open>\<^verbatim>\<open>base64.RawURLEncoding\<close>: the URL alphabet, no padding.\<close>

definition encodeURL :: string where
  "encodeURL = ''ABCDEFGHIJKLMNOPQRSTUVWXYZabcdefghijklmnopqrstuvwxyz0123456789-_''"

fun RawURLEncodeToString :: "string \<Rightarrow> string" where
  "RawURLEncodeToString (a # b # c # src) =
     (let val = of_char a * 65536 + of_char b * 256 + of_char c
      in encodeURL ! (val div 262144) # encodeURL ! (val div 4096 mod 64)
         # encodeURL ! (val div 64 mod 64) # encodeURL ! (val mod 64)
         # RawURLEncodeToString src)"
| "RawURLEncodeToString [a, b] =
     (let val = of_char a * 65536 + of_char b * 256
      in [encodeURL ! (val div 262144), encodeURL ! (val div 4096 mod 64),
          encodeURL ! (val div 64 mod 64)])"
| "RawURLEncodeToString [a] =
     (let val = of_char a * 65536
      in [encodeURL ! (val div 262144), encodeURL ! (val div 4096 mod 64)])"
| "RawURLEncodeToString [] = []"

text \<open>Modelled from the spec: \<^verbatim>\<open>CodeChallenge\<close>, which is not among the sources: the
  base64url encoding without padding of the SHA-256 of the verifier's bytes.\<close>

definition CodeChallenge :: "(string \<Rightarrow> string) \<Rightarrow> CodeVerifier \<Rightarrow> string" where
  "CodeChallenge sha v = RawURLEncodeToString (sha (RawValue v))"





text \<open>Fixtures for the GitLab URLs: a random source that always draws 7, a stand-in
  for SHA-256, and the parser's rule that a URL holds no control character.\<close>

definition sevens :: "nat \<Rightarrow> nat" where
  "sevens i = 7"

definition shaStub :: "string \<Rightarrow> string" where
  "shaStub s = take 32 (s @ replicate 32 (CHR ''0''))"




section \<open>The API auth middleware\<close>

lemma IsPublicRoute_iff: "IsPublicRoute u publicRoutes \<longleftrightarrow> Path u \<in> set publicRoutes"
  by (induction publicRoutes) auto

lemma Principal_WithPrincipal: "Principal (WithPrincipal ctx p) = p"
  by (simp add: Principal_def WithPrincipal_def)

lemma apiAuthGetters_NewAuthServer:
  assumes "NewAuthServer w cfg kc tsv = Inr srv"
  shows "\<exists>multi. apiAuthGetters srv = Ok multi"
proof (cases "IssuerURL cfg = []")
  case True
  with assms have "config srv = cfg"
    by (auto simp: NewAuthServer_def split: sum.splits)
  with True show ?thesis
    by (simp add: apiAuthGetters_def oidcEnabled_def)
next
  case False
  with assms obtain p where "provider srv = Some p"
    by (auto simp: NewAuthServer_def split: sum.splits)
  then show ?thesis
    by (simp add: apiAuthGetters_def verifier_def Let_def)
qed

text \<open>
  C2. A request whose URL path is an entry of the public-route list is forwarded to
  the wrapped handler as it is, and no principal is resolved. Any other request has
  its principal resolved: when the resolution returns an error or no principal the
  response is 401 with the body \<open>Authentication required\<close> and nothing is forwarded;
  when it returns a principal and no error, the request is forwarded with that
  principal in its context, where \<open>Principal\<close> finds it.
\<close>

theorem WithAPIAuth_gate:
  assumes "WithAPIAuth w srv publicRoutes = Ok h"
    and "apiAuthGetters srv = Ok multi"
    and "MultiPrincipal w multi r = (pr, err)"
  shows "(Path (RequestURL r) \<in> set publicRoutes \<longrightarrow>
            h r = [ServeNext r] \<and> forwarded (h r) = [r] \<and> \<not> resolved (h r))
       \<and> (Path (RequestURL r) \<notin> set publicRoutes \<and> (pr = None \<or> err \<noteq> None) \<longrightarrow>
            h r = [PrincipalCall r, HttpError ''Authentication required'' 401]
            \<and> statusOf (h r) = 401 \<and> forwarded (h r) = [])
       \<and> (\<forall>p. Path (RequestURL r) \<notin> set publicRoutes \<and> pr = Some p \<and> err = None \<longrightarrow>
            (\<exists>r'. h r = [PrincipalCall r, ServeNext r'] \<and> forwarded (h r) = [r']
                  \<and> r' = r\<lparr>Ctx := WithPrincipal (Ctx r) (Some p)\<rparr>
                  \<and> Principal (Ctx r') = Some p))"
proof -
  from assms(1,2) have h: "h = apiAuthHandler w multi publicRoutes"
    by (simp add: WithAPIAuth_def)
  have pub: "Path (RequestURL r) \<in> set publicRoutes \<Longrightarrow>
      h r = [ServeNext r] \<and> forwarded (h r) = [r] \<and> \<not> resolved (h r)"
    by (simp add: h apiAuthHandler_def IsPublicRoute_iff)
  have deny: "Path (RequestURL r) \<notin> set publicRoutes \<Longrightarrow> pr = None \<or> err \<noteq> None \<Longrightarrow>
      h r = [PrincipalCall r, HttpError ''Authentication required'' 401]
      \<and> statusOf (h r) = 401 \<and> forwarded (h r) = []"
    using assms(3) by (auto simp: h apiAuthHandler_def IsPublicRoute_iff split: option.splits)
  have admit: "Path (RequestURL r) \<notin> set publicRoutes \<Longrightarrow> pr = Some p \<Longrightarrow> err = None \<Longrightarrow>
      h r = [PrincipalCall r, ServeNext (r\<lparr>Ctx := WithPrincipal (Ctx r) (Some p)\<rparr>)]
      \<and> forwarded (h r) = [r\<lparr>Ctx := WithPrincipal (Ctx r) (Some p)\<rparr>]" for p
    using assms(3) by (simp add: h apiAuthHandler_def IsPublicRoute_iff)
  show ?thesis
    using pub deny admit by (auto simp: Principal_WithPrincipal)
qed

theorem WithAPIAuth_gate_witness:
  "(\<exists>h. WithAPIAuth refusingWorld localServer [''/v1/featureflags''] = Ok h
        \<and> h (getRequest ''/v1/featureflags'') = [ServeNext (getRequest ''/v1/featureflags'')]
        \<and> statusOf (h (getRequest ''/'')) = 401
        \<and> forwarded (h (getRequest ''/'')) = [])
   \<and> (\<exists>h. WithAPIAuth admittingWorld localServer [''/v1/featureflags''] = Ok h
        \<and> map (\<lambda>r'. Principal (Ctx r')) (forwarded (h (getRequest ''/''))) = [Some adminPrincipal])"
proof -
  let ?routes = "[''/v1/featureflags'']"
  let ?multi = "[JWTAdminCookiePrincipalGetter refusingSigner IDTokenCookieName]"
  have g: "apiAuthGetters localServer = Ok ?multi"
    by (simp add: apiAuthGetters_def localServer_def oidcEnabled_def emptyConfig_def)
  have h1: "WithAPIAuth refusingWorld localServer ?routes
              = Ok (apiAuthHandler refusingWorld ?multi ?routes)"
    by (simp add: WithAPIAuth_def g)
  have h2: "WithAPIAuth admittingWorld localServer ?routes
              = Ok (apiAuthHandler admittingWorld ?multi ?routes)"
    by (simp add: WithAPIAuth_def g)
  have m1: "MultiPrincipal refusingWorld ?multi r
              = (None, Some ''could not find valid principal'')" for r
    by (simp add: refusingWorld_def)
  have m2: "MultiPrincipal admittingWorld ?multi r = (Some adminPrincipal, None)" for r
    by (simp add: admittingWorld_def)
  have p1: "Path (RequestURL (getRequest ''/v1/featureflags'')) \<in> set ?routes"
    by (simp add: getRequest_def)
  have p2: "Path (RequestURL (getRequest ''/'')) \<notin> set ?routes"
    by (simp add: getRequest_def)
  from WithAPIAuth_gate [OF h1 g m1, of "getRequest ''/v1/featureflags''"]
       WithAPIAuth_gate [OF h1 g m1, of "getRequest ''/''"]
       WithAPIAuth_gate [OF h2 g m2, of "getRequest ''/''"]
       p1 p2 h1 h2
  show ?thesis by auto
qed

section \<open>Evaluating the codecs on literals\<close>

lemma parseValue_numeral:
  "parseValue (numeral k) d s = parseValue (Suc (pred_numeral k)) d s"
  by (simp only: numeral_eq_Suc)
lemma parseElements_numeral:
  "parseElements (numeral k) d s = parseElements (Suc (pred_numeral k)) d s"
  by (simp only: numeral_eq_Suc)
lemma parseMembers_numeral:
  "parseMembers (numeral k) d s = parseMembers (Suc (pred_numeral k)) d s"
  by (simp only: numeral_eq_Suc)

lemmas parse_numeral =
  parseValue_numeral [unfolded parseValue.simps]
  parseElements_numeral [unfolded parseElements.simps]
  parseMembers_numeral [unfolded parseMembers.simps]

lemmas base64_eval = char_of_def bit_iff_odd_drop_bit DecodeString_def decodeMap_def quantum_def
  encodeStd_def padChar_def

lemmas json_eval = char_of_def bit_iff_odd_drop_bit quote_def backslash_def hex_def
  htmlSafeSet_def DecodeRune_def EncodeRune_def RuneError_def acceptRange_def inRange_def
  getu4_def hexValue_def IsSurrogate_def utf16DecodeRune_def Let_def isSpace_def isDigit_def
  skipSpace_def parseString_def takeDigits_def scanNumber_def maxNestingDepth_def parseJSON_def
  jsonString_def parse_numeral Unmarshal_SessionState_def storeMember_def equalFold_def
  isLetter_def caseMask_def saveError_def typeError_def

lemma decodeState_empty_object: "decodeState ''e30='' = Inr \<lparr>Nonce = [], ReturnURL = []\<rparr>"
proof -
  have "DecodeString ''e30='' = Inr ''{}''"
    by (simp add: base64_eval)
  moreover have "Unmarshal_SessionState ''{}'' \<lparr>Nonce = [], ReturnURL = []\<rparr>
                   = Inr \<lparr>Nonce = [], ReturnURL = []\<rparr>"
    by (simp add: json_eval)
  ultimately show ?thesis
    by (simp add: decodeState_def)
qed

section \<open>The callback\<close>

lemma Callback_decode:
  "Callback w s r =
     (if Method r \<noteq> ''GET'' then Done [AddHeader ''Allow'' ''GET'', WriteHeader 405]
      else if FormValue r ''error'' \<noteq> [] \<or> FormValue r ''code'' = [] then Done [WriteHeader 400]
      else
        (case CookieNamed r StateCookieName of
           None \<Rightarrow> Done [WriteHeader 400]
         | Some cookie \<Rightarrow>
             if FormValue r ''state'' \<noteq> cookie then Done [WriteHeader 400]
             else
               (case decodeState cookie of
                  Inl err \<Rightarrow> Done [WriteHeader 400]
                | Inr state \<Rightarrow>
                    (case oauth2Config s [] of
                       Panic \<Rightarrow> Panicked []
                     | Ok cfg \<Rightarrow>
                         (case Exchange w cfg (FormValue r ''code'') of
                            Inl err \<Rightarrow>
                              Done [ExchangeCall cfg (FormValue r ''code''), WriteHeader 500]
                          | Inr token \<Rightarrow>
                              callbackToken w s state token
                                [ExchangeCall cfg (FormValue r ''code'')])))))"
  by (simp add: Callback_def decodeState_def Let_def split: option.split sum.split)

text \<open>
  C1, as amended. A request to the callback whose \<open>state\<close> form value differs from
  the value of its \<open>state\<close> cookie is answered without a token exchange and without
  any other call to the identity provider, and the handler returns: the response is
  400 Bad Request when the method is GET, and 405 when it is not, since the method is
  checked first.
\<close>

theorem Callback_state_mismatch:
  assumes "CookieNamed r StateCookieName = Some cookie"
    and "FormValue r ''state'' \<noteq> cookie"
  shows "\<not> panicked (Callback w s r)
       \<and> filter upstream (effects (Callback w s r)) = []
       \<and> (Method r = ''GET'' \<longrightarrow> Callback w s r = Done [WriteHeader 400])
       \<and> (Method r \<noteq> ''GET'' \<longrightarrow>
            Callback w s r = Done [AddHeader ''Allow'' ''GET'', WriteHeader 405])
       \<and> statusOf (effects (Callback w s r)) = (if Method r = ''GET'' then 400 else 405)"
  using assms by (simp add: Callback_decode)

theorem Callback_state_mismatch_witness:
  "CookieNamed (callbackRequest ''code-1'' ''forged'' ''e30='') StateCookieName = Some ''e30=''
   \<and> FormValue (callbackRequest ''code-1'' ''forged'' ''e30='') ''state'' = ''forged''
   \<and> Callback grantingWorld oidcServer (callbackRequest ''code-1'' ''forged'' ''e30='')
       = Done [WriteHeader 400]
   \<and> filter upstream
        (effects (Callback grantingWorld oidcServer (callbackRequest ''code-1'' ''forged'' ''e30='')))
       = []"
proof -
  let ?r = "callbackRequest ''code-1'' ''forged'' ''e30=''"
  have c: "CookieNamed ?r StateCookieName = Some ''e30=''"
    by (simp add: callbackRequest_def CookieNamed_def StateCookieName_def getRequest_def)
  have f: "FormValue ?r ''state'' = ''forged''"
    by (simp add: callbackRequest_def FormValue_def getRequest_def)
  have m: "Method ?r = ''GET''"
    by (simp add: callbackRequest_def getRequest_def)
  from f have ne: "FormValue ?r ''state'' \<noteq> ''e30=''"
    by simp
  from Callback_state_mismatch [OF c ne, of grantingWorld oidcServer] c f m
  show ?thesis by simp
qed

text \<open>
  C1 as stated fails for a POST: the forged state is answered 405, not 400.
\<close>

theorem Callback_state_mismatch_counterexample:
  "CookieNamed ((callbackRequest ''code-1'' ''forged'' ''e30='')\<lparr>Method := ''POST''\<rparr>)
       StateCookieName = Some ''e30=''
   \<and> FormValue ((callbackRequest ''code-1'' ''forged'' ''e30='')\<lparr>Method := ''POST''\<rparr>) ''state''
       = ''forged''
   \<and> statusOf (effects (Callback grantingWorld oidcServer
         ((callbackRequest ''code-1'' ''forged'' ''e30='')\<lparr>Method := ''POST''\<rparr>))) = 405"
  by (simp add: Callback_def callbackRequest_def CookieNamed_def StateCookieName_def
        FormValue_def getRequest_def)

lemma oauth2Config_Ok:
  "oauth2Config s scopes = Ok cfg \<Longrightarrow>
     \<exists>p. provider s = Some p
        \<and> verifier s = Ok \<lparr>verifierProvider = p, verifierClientID = ClientID (config s)\<rparr>"
  by (auto simp: oauth2Config_def verifier_def Let_def split: option.splits)

text \<open>
  The steps of the callback, in their order, each ending the request: a method
  other than GET is answered 405 with \<open>Allow: GET\<close>; then an \<open>error\<close> form value, an
  empty \<open>code\<close>, a missing \<open>state\<close> cookie, a \<open>state\<close> form value that is not the
  cookie's, and a cookie value that does not decode are each answered 400. On a
  server with a provider, where \<open>oauth2Config\<close> returns, a failed token exchange, a
  token without a string \<open>id_token\<close> and an ID token that does not verify are each
  answered 500; otherwise the \<open>id_token\<close> cookie is set to the raw ID token, the
  \<open>refresh_token\<close> cookie is set exactly when the token has a refresh token, the
  \<open>state\<close> cookie is cleared and the response is a 303 to the return URL of the
  decoded state.
\<close>

lemma Callback_steps:
  "(Method r \<noteq> ''GET'' \<longrightarrow>
      Callback w s r = Done [AddHeader ''Allow'' ''GET'', WriteHeader 405])
   \<and> (Method r = ''GET'' \<longrightarrow>
        (FormValue r ''error'' \<noteq> [] \<longrightarrow> Callback w s r = Done [WriteHeader 400])
      \<and> (FormValue r ''error'' = [] \<longrightarrow>
           (FormValue r ''code'' = [] \<longrightarrow> Callback w s r = Done [WriteHeader 400])
         \<and> (FormValue r ''code'' \<noteq> [] \<longrightarrow>
              (CookieNamed r StateCookieName = None \<longrightarrow> Callback w s r = Done [WriteHeader 400])
            \<and> (\<forall>cookie. CookieNamed r StateCookieName = Some cookie \<longrightarrow>
                 (FormValue r ''state'' \<noteq> cookie \<longrightarrow> Callback w s r = Done [WriteHeader 400])
               \<and> (FormValue r ''state'' = cookie \<longrightarrow>
                    (\<forall>err. decodeState cookie = Inl err \<longrightarrow>
                       Callback w s r = Done [WriteHeader 400])
                  \<and> (\<forall>state cfg. decodeState cookie = Inr state \<and> oauth2Config s [] = Ok cfg \<longrightarrow>
                       (\<forall>err. Exchange w cfg (FormValue r ''code'') = Inl err \<longrightarrow>
                          Callback w s r
                            = Done [ExchangeCall cfg (FormValue r ''code''), WriteHeader 500])
                     \<and> (\<forall>token. Exchange w cfg (FormValue r ''code'') = Inr token \<longrightarrow>
                          ((\<forall>rawIDToken. Extra token ''id_token'' \<noteq> Some (GoString rawIDToken)) \<longrightarrow>
                             Callback w s r
                               = Done [ExchangeCall cfg (FormValue r ''code''),
                                       HttpError ''no id_token in token response'' 500])
                        \<and> (\<forall>rawIDToken. Extra token ''id_token'' = Some (GoString rawIDToken) \<longrightarrow>
                             (\<exists>v. verifier s = Ok v
                                \<and> (\<forall>err. VerifyIDToken w v rawIDToken = Some err \<longrightarrow>
                                      Callback w s r
                                        = Done [ExchangeCall cfg (FormValue r ''code''),
                                                VerifyCall v rawIDToken,
                                                HttpError (''failed to verify ID token: '' @ err) 500])
                                \<and> (VerifyIDToken w v rawIDToken = None \<longrightarrow>
                                      Callback w s r
                                        = Done ([ExchangeCall cfg (FormValue r ''code''),
                                                 VerifyCall v rawIDToken,
                                                 SetCookie (createCookie w s IDTokenCookieName rawIDToken)]
                                                @ (if RefreshToken token \<noteq> []
                                                   then [SetCookie (createCookie w s RefreshTokenCookieName
                                                                      (RefreshToken token))]
                                                   else [])
                                                @ [SetCookie (clearCookie StateCookieName),
                                                   Redirect (ReturnURL state) 303])))))))))))"
proof -
  have early: "Method r \<noteq> ''GET'' \<Longrightarrow>
      Callback w s r = Done [AddHeader ''Allow'' ''GET'', WriteHeader 405]"
    by (simp add: Callback_decode)
  have bad: "Callback w s r = Done [WriteHeader 400]"
    if "Method r = ''GET''"
      and "FormValue r ''error'' \<noteq> [] \<or> FormValue r ''code'' = []
           \<or> CookieNamed r StateCookieName = None
           \<or> (\<exists>cookie. CookieNamed r StateCookieName = Some cookie
                 \<and> (FormValue r ''state'' \<noteq> cookie \<or> (\<exists>err. decodeState cookie = Inl err)))"
    using that by (auto simp: Callback_decode)
  have late: "Callback w s r =
      (case Exchange w cfg (FormValue r ''code'') of
         Inl err \<Rightarrow> Done [ExchangeCall cfg (FormValue r ''code''), WriteHeader 500]
       | Inr token \<Rightarrow> callbackToken w s state token [ExchangeCall cfg (FormValue r ''code'')])"
    if "Method r = ''GET''" "FormValue r ''error'' = []" "FormValue r ''code'' \<noteq> []"
      "CookieNamed r StateCookieName = Some cookie" "FormValue r ''state'' = cookie"
      "decodeState cookie = Inr state" "oauth2Config s [] = Ok cfg" for cookie state cfg
    using that by (simp add: Callback_decode)
  have tok: "\<exists>v. verifier s = Ok v
      \<and> callbackToken w s state token done =
         (case Extra token ''id_token'' of
            Some (GoString rawIDToken) \<Rightarrow>
              (case VerifyIDToken w v rawIDToken of
                 Some err \<Rightarrow>
                   Done (done @ [VerifyCall v rawIDToken,
                                 HttpError (''failed to verify ID token: '' @ err) 500])
               | None \<Rightarrow>
                   Done (done @ [VerifyCall v rawIDToken,
                                 SetCookie (createCookie w s IDTokenCookieName rawIDToken)]
                         @ (if RefreshToken token \<noteq> []
                            then [SetCookie (createCookie w s RefreshTokenCookieName
                                               (RefreshToken token))]
                            else [])
                         @ [SetCookie (clearCookie StateCookieName),
                            Redirect (ReturnURL state) 303]))
          | _ \<Rightarrow> Done (done @ [HttpError ''no id_token in token response'' 500]))"
    if "oauth2Config s [] = Ok cfg" for cfg state token "done"
    using oauth2Config_Ok [OF that]
    by (auto simp: callbackToken_def split: option.split go_value.split)
  show ?thesis
    apply (intro conjI impI allI)
    subgoal by (rule early)
    subgoal by (rule bad) auto
    subgoal by (rule bad) auto
    subgoal by (rule bad) auto
    subgoal by (rule bad) auto
    subgoal by (rule bad) auto
    subgoal by (simp add: late)
    subgoal for cookie state cfg token
      by (cases "Extra token ''id_token''"; cases "the (Extra token ''id_token'')")
         (auto simp: late callbackToken_def)
    subgoal for cookie state cfg token rawIDToken
      using tok [of cfg state token "[ExchangeCall cfg (FormValue r ''code'')]"]
      by (auto simp: late)
    done
qed

lemma Callback_steps_example:
  "Callback grantingWorld oidcServer (callbackRequest ''code-1'' ''e30='' ''e30='')
     = Done [ExchangeCall
               \<lparr>oauth2ClientID = ''gitops'', oauth2ClientSecret = ''s3cret'',
                oauth2Endpoint = \<lparr>AuthURL = ''https://idp.example/auth'',
                                  TokenURL = ''https://idp.example/token''\<rparr>,
                oauth2RedirectURL = ''https://gitops.example/oauth2/callback'',
                Scopes = [''openid'', ''offline_access'', ''email'', ''groups'']\<rparr>
               ''code-1'',
             VerifyCall \<lparr>verifierProvider = oidcProvider, verifierClientID = ''gitops''\<rparr>
               ''raw.id.token'',
             SetCookie \<lparr>Name = ''id_token'', Value = ''raw.id.token'', CookiePath = ''/'',
                        Expires = 2200, HttpOnly = True, Secure = False\<rparr>,
             SetCookie \<lparr>Name = ''refresh_token'', Value = ''refresh'', CookiePath = ''/'',
                        Expires = 2200, HttpOnly = True, Secure = False\<rparr>,
             SetCookie \<lparr>Name = ''state'', Value = [], CookiePath = ''/'', Expires = 0,
                        HttpOnly = False, Secure = False\<rparr>,
             Redirect [] 303]
   \<and> statusOf (effects (Callback grantingWorld oidcServer
                          (callbackRequest ''code-2'' ''e30='' ''e30=''))) = 500"
proof -
  let ?cfg = "\<lparr>oauth2ClientID = ''gitops'', oauth2ClientSecret = ''s3cret'',
                oauth2Endpoint = \<lparr>AuthURL = ''https://idp.example/auth'',
                                  TokenURL = ''https://idp.example/token''\<rparr>,
                oauth2RedirectURL = ''https://gitops.example/oauth2/callback'',
                Scopes = [''openid'', ''offline_access'', ''email'', ''groups'']\<rparr>"
  let ?v = "\<lparr>verifierProvider = oidcProvider, verifierClientID = ''gitops''\<rparr>"
  have req: "Method (callbackRequest code ''e30='' ''e30='') = ''GET''"
    "FormValue (callbackRequest code ''e30='' ''e30='') ''error'' = []"
    "FormValue (callbackRequest code ''e30='' ''e30='') ''code'' = code"
    "FormValue (callbackRequest code ''e30='' ''e30='') ''state'' = ''e30=''"
    "CookieNamed (callbackRequest code ''e30='' ''e30='') StateCookieName = Some ''e30=''" for code
    by (simp_all add: callbackRequest_def getRequest_def FormValue_def CookieNamed_def
          StateCookieName_def)
  have cfg: "oauth2Config oidcServer [] = Ok ?cfg"
    by (simp add: oauth2Config_def oidcServer_def oidcConfig_def oidcProvider_def
          ScopeOpenID_def ScopeOfflineAccess_def scopeEmail_def scopeGroups_def)
  have v: "verifier oidcServer = Ok ?v"
    by (simp add: verifier_def oidcServer_def oidcConfig_def)
  have ex1: "Exchange grantingWorld ?cfg ''code-1'' = Inr idpToken"
    and ex2: "Exchange grantingWorld ?cfg ''code-2'' = Inl ''invalid_grant''"
    by (simp_all add: grantingWorld_def)
  have tok: "Extra idpToken ''id_token'' = Some (GoString ''raw.id.token'')"
    "RefreshToken idpToken = ''refresh''"
    by (simp_all add: Extra_def idpToken_def)
  have ver: "VerifyIDToken grantingWorld ?v ''raw.id.token'' = None"
    by (simp add: grantingWorld_def)
  have ck: "createCookie grantingWorld oidcServer n x
      = \<lparr>Name = n, Value = x, CookiePath = ''/'', Expires = 2200, HttpOnly = True,
         Secure = False\<rparr>" for n x
    by (simp add: createCookie_def grantingWorld_def oidcServer_def oidcConfig_def)
  from Callback_steps [of "callbackRequest ''code-1'' ''e30='' ''e30=''" grantingWorld oidcServer]
       Callback_steps [of "callbackRequest ''code-2'' ''e30='' ''e30=''" grantingWorld oidcServer]
       req decodeState_empty_object cfg v ex1 ex2 tok ver
  show ?thesis
    by (simp add: ck clearCookie_def IDTokenCookieName_def RefreshTokenCookieName_def
          StateCookieName_def)
qed

section \<open>Local sign-in\<close>

text \<open>
  C4, as amended. Sign-in answers a method other than POST with 405 and
  \<open>Allow: POST\<close>, a body that does not decode with 400, a failed read of the
  admin-password-hash secret with 400, and a hash that does not match the password
  with 401. On a match it signs a local token: when signing fails the answer is 500;
  otherwise the \<open>id_token\<close> cookie is set to the signed token and the answer is 200.
  No other cookie is ever set, so no refresh-token cookie, and the handler returns
  with one of the statuses 200, 400, 401, 405 and 500.
\<close>

theorem SignIn_steps:
  "(Method r \<noteq> ''POST'' \<longrightarrow>
      SignIn w s r = Done [AddHeader ''Allow'' ''POST'', WriteHeader 405])
   \<and> (Method r = ''POST'' \<longrightarrow>
        (\<forall>err. DecodeLoginRequest w (Body r) = Inl err \<longrightarrow>
           SignIn w s r = Done [HttpError ''Failed to read request body.'' 400])
      \<and> (\<forall>loginRequest. DecodeLoginRequest w (Body r) = Inr loginRequest \<longrightarrow>
           (\<forall>err. kubernetesClient s ''wego-system'' ''admin-password-hash'' = Inl err \<longrightarrow>
              SignIn w s r
                = Done [KubernetesGet ''wego-system'' ''admin-password-hash'',
                        HttpError ''Please ensure that a password has been set.'' 400])
         \<and> (\<forall>hashedSecret.
                kubernetesClient s ''wego-system'' ''admin-password-hash'' = Inr hashedSecret \<longrightarrow>
              (\<forall>err. CompareHashAndPassword w
                       (case map_of hashedSecret ''password'' of None \<Rightarrow> [] | Some h \<Rightarrow> h)
                       (Password loginRequest) = Some err \<longrightarrow>
                 SignIn w s r
                   = Done [KubernetesGet ''wego-system'' ''admin-password-hash'', WriteHeader 401])
            \<and> (CompareHashAndPassword w
                  (case map_of hashedSecret ''password'' of None \<Rightarrow> [] | Some h \<Rightarrow> h)
                  (Password loginRequest) = None \<longrightarrow>
                 (\<forall>err. Sign (tokenSignerVerifier s) = Inl err \<longrightarrow>
                    SignIn w s r
                      = Done [KubernetesGet ''wego-system'' ''admin-password-hash'',
                              WriteHeader 500])
               \<and> (\<forall>signed. Sign (tokenSignerVerifier s) = Inr signed \<longrightarrow>
                    SignIn w s r
                      = Done [KubernetesGet ''wego-system'' ''admin-password-hash'',
                              SetCookie (createCookie w s IDTokenCookieName signed),
                              WriteHeader 200])))))
   \<and> \<not> panicked (SignIn w s r)
   \<and> (\<forall>c \<in> set (cookiesSet (effects (SignIn w s r))).
         Name c = IDTokenCookieName \<and> Name c \<noteq> RefreshTokenCookieName)
   \<and> statusOf (effects (SignIn w s r)) \<in> {200, 400, 401, 405, 500}"
  by (auto simp: SignIn_def createCookie_def IDTokenCookieName_def RefreshTokenCookieName_def
        split: sum.splits option.splits)

theorem SignIn_steps_witness:
  "SignIn grantingWorld adminServer signInRequest
     = Done [KubernetesGet ''wego-system'' ''admin-password-hash'',
             SetCookie \<lparr>Name = ''id_token'', Value = ''local.token'', CookiePath = ''/'',
                        Expires = 2200, HttpOnly = True, Secure = False\<rparr>,
             WriteHeader 200]
   \<and> statusOf (effects (SignIn grantingWorld adminServer signInRequest)) = 200"
proof -
  have req: "Method signInRequest = ''POST''" "Body signInRequest = loginBody"
    by (simp_all add: signInRequest_def getRequest_def)
  have dec: "DecodeLoginRequest grantingWorld loginBody = Inr \<lparr>Password = ''let-me-in''\<rparr>"
    by (simp add: grantingWorld_def)
  have kube: "kubernetesClient adminServer ''wego-system'' ''admin-password-hash''
                = Inr [(''password'', ''hash'')]"
    by (simp add: adminServer_def adminSecrets_def)
  have cmp: "CompareHashAndPassword grantingWorld ''hash'' ''let-me-in'' = None"
    by (simp add: grantingWorld_def)
  have sign: "Sign (tokenSignerVerifier adminServer) = Inr ''local.token''"
    by (simp add: adminServer_def adminSigner_def)
  have ck: "createCookie grantingWorld adminServer IDTokenCookieName ''local.token''
      = \<lparr>Name = ''id_token'', Value = ''local.token'', CookiePath = ''/'', Expires = 2200,
         HttpOnly = True, Secure = False\<rparr>"
    by (simp add: createCookie_def grantingWorld_def adminServer_def emptyConfig_def
          IDTokenCookieName_def)
  from SignIn_steps [of signInRequest grantingWorld adminServer] req dec kube cmp sign
  show ?thesis
    by (simp add: ck)
qed

text \<open>
  C4 as stated fails where the token cannot be signed: the password matches and the
  answer is 500, a failure code the claim excludes.
\<close>

theorem SignIn_steps_counterexample:
  "statusOf (effects (SignIn grantingWorld (adminServer\<lparr>tokenSignerVerifier := refusingSigner\<rparr>)
                        signInRequest)) = 500"
  by (simp add: SignIn_def signInRequest_def getRequest_def grantingWorld_def adminServer_def
        adminSecrets_def refusingSigner_def)

section \<open>User info\<close>

text \<open>
  C5, as amended. For a GET to the user-info handler: without an \<open>id_token\<close> cookie
  the answer is 400. When the local verifier accepts the cookie value, the answer is
  200 and its body is the JSON object whose \<open>email\<close> is the subject of the claims and
  whose \<open>groups\<close> is \<open>null\<close>. When it rejects the value and the server has a provider,
  the value is sent to the provider's user-info endpoint as an access token: a
  failure there is answered 401, and on success the body is the JSON object whose
  \<open>email\<close> is the one the provider reports and whose \<open>groups\<close> is \<open>null\<close>.
\<close>

theorem UserInfo_steps:
  "Method r = ''GET'' \<longrightarrow>
     (CookieNamed r IDTokenCookieName = None \<longrightarrow> UserInfo w s r = Done [WriteHeader 400])
   \<and> (\<forall>c. CookieNamed r IDTokenCookieName = Some c \<longrightarrow>
        (\<forall>claims. Verify (tokenSignerVerifier s) c = Inr claims \<longrightarrow>
           UserInfo w s r
             = Done [Write (''{'' @ [quote] @ ''email'' @ [quote] @ '':''
                            @ jsonString (Subject claims)
                            @ '','' @ [quote] @ ''groups'' @ [quote] @ '':null}'')]
           \<and> statusOf (effects (UserInfo w s r)) = 200)
      \<and> (\<forall>err p. Verify (tokenSignerVerifier s) c = Inl err \<and> provider s = Some p \<longrightarrow>
           (\<forall>err'. ProviderUserInfo w p c = Inl err' \<longrightarrow>
              UserInfo w s r
                = Done [UserInfoCall p c,
                        HttpError (''failed to query user info endpoint: '' @ err') 401])
         \<and> (\<forall>info. ProviderUserInfo w p c = Inr info \<longrightarrow>
              UserInfo w s r
                = Done [UserInfoCall p c,
                        Write (''{'' @ [quote] @ ''email'' @ [quote] @ '':''
                               @ jsonString (InfoEmail info)
                               @ '','' @ [quote] @ ''groups'' @ [quote] @ '':null}'')])))"
proof -
  have body: "toJson \<lparr>Email = e, Groups = None\<rparr>
      = [Write (''{'' @ [quote] @ ''email'' @ [quote] @ '':'' @ jsonString e
                @ '','' @ [quote] @ ''groups'' @ [quote] @ '':null}'')]" for e
    by (simp add: toJson_def Marshal_UserInfo_def jsonString_def [of "''email''"]
          jsonString_def [of "''groups''"] htmlSafeSet_def)
  show ?thesis
    by (auto simp: UserInfo_def body)
qed

theorem UserInfo_steps_witness:
  "UserInfo grantingWorld adminServer (userInfoRequest ''local.token'')
     = Done [Write (''{'' @ [quote] @ ''email'' @ [quote] @ '':'' @ jsonString ''admin''
                    @ '','' @ [quote] @ ''groups'' @ [quote] @ '':null}'')]
   \<and> UserInfo grantingWorld oidcServer (userInfoRequest ''access'')
     = Done [UserInfoCall oidcProvider ''access'',
             Write (''{'' @ [quote] @ ''email'' @ [quote] @ '':'' @ jsonString ''jane@example.com''
                    @ '','' @ [quote] @ ''groups'' @ [quote] @ '':null}'')]
   \<and> statusOf (effects (UserInfo grantingWorld oidcServer (userInfoRequest ''expired''))) = 401"
proof -
  have req: "Method (userInfoRequest t) = ''GET''"
    "CookieNamed (userInfoRequest t) IDTokenCookieName = Some t" for t
    by (simp_all add: userInfoRequest_def getRequest_def CookieNamed_def IDTokenCookieName_def)
  have v1: "Verify (tokenSignerVerifier adminServer) ''local.token'' = Inr \<lparr>Subject = ''admin''\<rparr>"
    by (simp add: adminServer_def adminSigner_def)
  have v2: "Verify (tokenSignerVerifier oidcServer) ''access'' = Inl ''invalid token''"
    "Verify (tokenSignerVerifier oidcServer) ''expired'' = Inl ''invalid token''"
    by (simp_all add: oidcServer_def adminSigner_def)
  have p: "provider oidcServer = Some oidcProvider"
    by (simp add: oidcServer_def)
  have u: "ProviderUserInfo grantingWorld oidcProvider ''access''
             = Inr \<lparr>InfoSubject = ''u1'', InfoEmail = ''jane@example.com''\<rparr>"
    "ProviderUserInfo grantingWorld oidcProvider ''expired'' = Inl ''401 Unauthorized''"
    by (simp_all add: grantingWorld_def)
  from UserInfo_steps [of "userInfoRequest ''local.token''" grantingWorld adminServer]
       UserInfo_steps [of "userInfoRequest ''access''" grantingWorld oidcServer]
       UserInfo_steps [of "userInfoRequest ''expired''" grantingWorld oidcServer]
       req v1 v2 p u
  show ?thesis
    by simp
qed

text \<open>
  C5 as stated fails for the local admin token: the body of the answer has
  \<open>groups\<close> \<open>null\<close>, not the empty array.
\<close>

theorem UserInfo_steps_counterexample:
  "UserInfo grantingWorld adminServer (userInfoRequest ''local.token'')
     = Done [Write (''{'' @ [quote] @ ''email'' @ [quote] @ '':'' @ [quote] @ ''admin'' @ [quote]
                    @ '','' @ [quote] @ ''groups'' @ [quote] @ '':null}'')]
   \<and> parseJSON (''{'' @ [quote] @ ''email'' @ [quote] @ '':'' @ [quote] @ ''admin'' @ [quote]
                 @ '','' @ [quote] @ ''groups'' @ [quote] @ '':null}'')
     = Some (JObject [(''email'', JString ''admin''), (''groups'', JNull)])"
proof -
  let ?b = "''{'' @ [quote] @ ''email'' @ [quote] @ '':'' @ [quote] @ ''admin'' @ [quote]
             @ '','' @ [quote] @ ''groups'' @ [quote] @ '':null}''"
  have "UserInfo grantingWorld adminServer (userInfoRequest ''local.token'') = Done [Write ?b]"
    by (simp add: UserInfo_def userInfoRequest_def getRequest_def CookieNamed_def
          IDTokenCookieName_def adminServer_def adminSigner_def toJson_def Marshal_UserInfo_def
          jsonString_def htmlSafeSet_def)
  moreover have "parseJSON ?b = Some (JObject [(''email'', JString ''admin''), (''groups'', JNull)])"
    by (simp add: json_eval)
  ultimately show ?thesis
    by simp
qed

section \<open>Starting the flow\<close>

lemma oauth2Config_scopes:
  assumes "oauth2Config s scopes = Ok cfg"
  shows "Scopes cfg
           = scopes @ filter (\<lambda>x. x \<notin> set scopes)
                        [ScopeOpenID, ScopeOfflineAccess, scopeEmail, scopeGroups]"
proof -
  have c: "contains ss x \<longleftrightarrow> x \<in> set ss" for ss x
    by (induction ss) auto
  from assms show ?thesis
    by (auto simp: oauth2Config_def Let_def c ScopeOpenID_def ScopeOfflineAccess_def
          scopeEmail_def scopeGroups_def split: option.splits)
qed

text \<open>
  C6, as amended. The flow-start handler answers 400 when no identity provider is
  configured. When one is configured, a nonce that cannot be generated is answered
  500; otherwise the \<open>state\<close> cookie is set to the encoded session state and the
  answer is a 303 to the provider's authorize URL for that state and for the scopes
  \<open>profile\<close>, \<open>openid\<close>, \<open>offline_access\<close>, \<open>email\<close>, \<open>groups\<close>. Whatever scopes are
  asked for, the configuration holds them followed by those of \<open>openid\<close>,
  \<open>offline_access\<close>, \<open>email\<close> and \<open>groups\<close> that are not among them.
\<close>

theorem OAuth2Flow_start:
  "(\<not> oidcEnabled s \<longrightarrow>
      OAuth2Flow w s r = Done [HttpError ''oidc provider not configured'' 400])
   \<and> (oidcEnabled s \<longrightarrow>
        (\<forall>err. RandRead w 32 = Inl err \<longrightarrow>
           OAuth2Flow w s r = Done [HttpError (''failed to generate nonce: '' @ err) 500])
      \<and> (\<forall>b p. RandRead w 32 = Inr b \<and> provider s = Some p \<longrightarrow>
           (\<exists>state cfg.
              encodeState (EncodeToString b)
                (if QueryGet (RequestURL r) ''return_url'' = [] then URLString (RequestURL r)
                 else QueryGet (RequestURL r) ''return_url'') = Inr state
              \<and> oauth2Config s [scopeProfile] = Ok cfg
              \<and> oauth2Endpoint cfg = \<lparr>AuthURL = authURL p, TokenURL = tokenURL p\<rparr>
              \<and> Scopes cfg = [''profile'', ''openid'', ''offline_access'', ''email'', ''groups'']
              \<and> OAuth2Flow w s r
                  = Done [SetCookie (createCookie w s StateCookieName state),
                          Redirect (AuthCodeURL w cfg state) 303])))
   \<and> (\<forall>scopes cfg. oauth2Config s scopes = Ok cfg \<longrightarrow>
         Scopes cfg
           = scopes @ filter (\<lambda>x. x \<notin> set scopes)
                        [''openid'', ''offline_access'', ''email'', ''groups''])"
proof -
  have off: "\<not> oidcEnabled s \<Longrightarrow>
      OAuth2Flow w s r = Done [HttpError ''oidc provider not configured'' 400]"
    by (simp add: OAuth2Flow_def)
  have nonce: "oidcEnabled s \<Longrightarrow> RandRead w 32 = Inl err \<Longrightarrow>
      OAuth2Flow w s r = Done [HttpError (''failed to generate nonce: '' @ err) 500]" for err
    by (simp add: OAuth2Flow_def startAuthFlow_def generateNonce_def)
  have start: "\<exists>state cfg.
      encodeState (EncodeToString b)
        (if QueryGet (RequestURL r) ''return_url'' = [] then URLString (RequestURL r)
         else QueryGet (RequestURL r) ''return_url'') = Inr state
      \<and> oauth2Config s [scopeProfile] = Ok cfg
      \<and> oauth2Endpoint cfg = \<lparr>AuthURL = authURL p, TokenURL = tokenURL p\<rparr>
      \<and> Scopes cfg = [''profile'', ''openid'', ''offline_access'', ''email'', ''groups'']
      \<and> OAuth2Flow w s r
          = Done [SetCookie (createCookie w s StateCookieName state),
                  Redirect (AuthCodeURL w cfg state) 303]"
    if "oidcEnabled s" "RandRead w 32 = Inr b" "provider s = Some p" for b p
  proof -
    from that(3) obtain cfg where cfg: "oauth2Config s [scopeProfile] = Ok cfg"
      by (simp add: oauth2Config_def Let_def)
    from cfg that(3) have ep: "oauth2Endpoint cfg = \<lparr>AuthURL = authURL p, TokenURL = tokenURL p\<rparr>"
      by (auto simp: oauth2Config_def Let_def)
    from oauth2Config_scopes [OF cfg]
    have sc: "Scopes cfg = [''profile'', ''openid'', ''offline_access'', ''email'', ''groups'']"
      by (simp add: scopeProfile_def ScopeOpenID_def ScopeOfflineAccess_def scopeEmail_def
            scopeGroups_def)
    from that(1,2) cfg show ?thesis
      by (simp add: ep sc OAuth2Flow_def startAuthFlow_def generateNonce_def encodeState_def
            Marshal_SessionState_def Let_def)
  qed
  have forced: "oauth2Config s scopes = Ok cfg \<Longrightarrow>
      Scopes cfg = scopes @ filter (\<lambda>x. x \<notin> set scopes)
                             [''openid'', ''offline_access'', ''email'', ''groups'']" for scopes cfg
    using oauth2Config_scopes [of s scopes cfg]
    by (simp add: ScopeOpenID_def ScopeOfflineAccess_def scopeEmail_def scopeGroups_def)
  show ?thesis
    using off nonce start forced by blast
qed

theorem OAuth2Flow_start_witness:
  "OAuth2Flow grantingWorld adminServer (getRequest ''/oauth2'')
     = Done [HttpError ''oidc provider not configured'' 400]
   \<and> statusOf (effects (OAuth2Flow grantingWorld oidcServer (getRequest ''/oauth2''))) = 303
   \<and> map Name (cookiesSet (effects (OAuth2Flow grantingWorld oidcServer (getRequest ''/oauth2''))))
       = [''state'']"
proof -
  have off: "\<not> oidcEnabled adminServer"
    by (simp add: oidcEnabled_def adminServer_def emptyConfig_def)
  have on: "oidcEnabled oidcServer" "provider oidcServer = Some oidcProvider"
    by (simp_all add: oidcEnabled_def oidcServer_def oidcConfig_def)
  have rnd: "RandRead grantingWorld 32 = Inr (replicate 32 (CHR ''r''))"
    by (simp add: grantingWorld_def)
  from OAuth2Flow_start [of adminServer grantingWorld "getRequest ''/oauth2''"]
       OAuth2Flow_start [of oidcServer grantingWorld "getRequest ''/oauth2''"]
       off on rnd
  show ?thesis
    by (auto simp: createCookie_def StateCookieName_def)
qed

text \<open>
  C6 as stated fails where the nonce cannot be generated: a provider is configured and
  the answer is 500, not a redirect.
\<close>

theorem OAuth2Flow_start_counterexample:
  "oidcEnabled oidcServer
   \<and> statusOf (effects (OAuth2Flow (grantingWorld\<lparr>RandRead := (\<lambda>n. Inl ''entropy unavailable'')\<rparr>)
                          oidcServer (getRequest ''/oauth2''))) = 500"
  by (simp add: OAuth2Flow_def startAuthFlow_def generateNonce_def oidcEnabled_def
        oidcServer_def oidcConfig_def grantingWorld_def)

section \<open>User info without a provider\<close>

lemma NewAuthServer_provider:
  assumes "NewAuthServer w cfg kc tsv = Inr s"
  shows "config s = cfg \<and> kubernetesClient s = kc \<and> tokenSignerVerifier s = tsv
       \<and> (provider s = None \<longleftrightarrow> IssuerURL cfg = [])"
  using assms by (auto simp: NewAuthServer_def split: sum.splits if_splits)

text \<open>
  C10. A server built by \<open>NewAuthServer\<close> from a configuration without an issuer URL
  has no provider. On such a server, a GET to the user-info handler whose \<open>id_token\<close>
  cookie the local verifier rejects goes on to the provider's user-info call, which
  panics on the nil provider: the handler writes no status and no body. The handler
  does not read the configuration at all, so whether OIDC is enabled changes nothing
  of what it does.
\<close>

theorem UserInfo_nil_provider:
  assumes "NewAuthServer w0 cfg kc tsv = Inr s"
    and "IssuerURL cfg = []"
    and "Method r = ''GET''"
    and "CookieNamed r IDTokenCookieName = Some c"
    and "Verify tsv c = Inl err"
  shows "provider s = None \<and> \<not> oidcEnabled s
       \<and> UserInfo w s r = Panicked []
       \<and> (\<forall>s' cfg'. UserInfo w (s'\<lparr>config := cfg'\<rparr>) r = UserInfo w s' r)"
proof -
  from NewAuthServer_provider [OF assms(1)] assms(2)
  have s: "provider s = None" "tokenSignerVerifier s = tsv" "config s = cfg"
    by simp_all
  have frame: "UserInfo w (s'\<lparr>config := cfg'\<rparr>) r = UserInfo w s' r" for s' cfg'
    by (simp add: UserInfo_def split: sum.split option.split)
  from s assms(2-5) show ?thesis
    by (simp add: frame) (simp add: UserInfo_def oidcEnabled_def)
qed

theorem UserInfo_nil_provider_witness:
  "NewAuthServer refusingWorld emptyConfig adminSecrets adminSigner = Inr adminServer
   \<and> IssuerURL emptyConfig = []
   \<and> Verify adminSigner ''stale.token'' = Inl ''invalid token''
   \<and> UserInfo grantingWorld adminServer (userInfoRequest ''stale.token'') = Panicked []"
proof -
  have n: "NewAuthServer refusingWorld emptyConfig adminSecrets adminSigner = Inr adminServer"
    by (simp add: NewAuthServer_def emptyConfig_def refusingWorld_def adminServer_def)
  have i: "IssuerURL emptyConfig = []"
    by (simp add: emptyConfig_def)
  have m: "Method (userInfoRequest ''stale.token'') = ''GET''"
    and c: "CookieNamed (userInfoRequest ''stale.token'') IDTokenCookieName = Some ''stale.token''"
    by (simp_all add: userInfoRequest_def getRequest_def CookieNamed_def IDTokenCookieName_def)
  have v: "Verify adminSigner ''stale.token'' = Inl ''invalid token''"
    by (simp add: adminSigner_def)
  from UserInfo_nil_provider [OF n i m c v, of grantingWorld] n i v
  show ?thesis by simp
qed

section \<open>The callback without a provider\<close>

text \<open>
  C3 does not hold of the code. On a server that \<open>NewAuthServer\<close> built from a
  configuration without an issuer URL, a GET to the callback that passes the first
  five steps (no \<open>error\<close>, a \<open>code\<close>, a \<open>state\<close> cookie equal to the \<open>state\<close> form value
  and decoding to a session state) does not reach the token exchange: \<open>oauth2Config\<close>
  calls \<open>Endpoint\<close> on the nil provider and the handler panics, writing no status,
  setting no cookie and calling nothing. The flow-start handler, on the same server,
  checks \<open>oidcEnabled\<close> first and answers 400.
\<close>

theorem Callback_nil_provider:
  assumes "NewAuthServer w0 cfg kc tsv = Inr s"
    and "IssuerURL cfg = []"
    and "Method r = ''GET''"
    and "FormValue r ''error'' = []"
    and "FormValue r ''code'' \<noteq> []"
    and "CookieNamed r StateCookieName = Some cookie"
    and "FormValue r ''state'' = cookie"
    and "decodeState cookie = Inr state"
  shows "Callback w s r = Panicked []
       \<and> panicked (Callback w s r)
       \<and> effects (Callback w s r) = []
       \<and> OAuth2Flow w s r' = Done [HttpError ''oidc provider not configured'' 400]"
proof -
  from NewAuthServer_provider [OF assms(1)] assms(2)
  have s: "provider s = None" "config s = cfg"
    by simp_all
  then have cfg: "oauth2Config s [] = Panic"
    by (simp add: oauth2Config_def Let_def)
  from s assms(2) have off: "\<not> oidcEnabled s"
    by (simp add: oidcEnabled_def)
  from assms(3-8) cfg have "Callback w s r = Panicked []"
    by (simp add: Callback_decode)
  with off show ?thesis
    by (simp add: OAuth2Flow_def)
qed

theorem Callback_nil_provider_witness:
  "NewAuthServer refusingWorld emptyConfig adminSecrets adminSigner = Inr adminServer
   \<and> IssuerURL emptyConfig = []
   \<and> decodeState ''e30='' = Inr \<lparr>Nonce = [], ReturnURL = []\<rparr>
   \<and> Callback grantingWorld adminServer (callbackRequest ''code-1'' ''e30='' ''e30='')
       = Panicked []
   \<and> OAuth2Flow grantingWorld adminServer (getRequest ''/oauth2'')
       = Done [HttpError ''oidc provider not configured'' 400]"
proof -
  let ?r = "callbackRequest ''code-1'' ''e30='' ''e30=''"
  have n: "NewAuthServer refusingWorld emptyConfig adminSecrets adminSigner = Inr adminServer"
    by (simp add: NewAuthServer_def emptyConfig_def refusingWorld_def adminServer_def)
  have i: "IssuerURL emptyConfig = []"
    by (simp add: emptyConfig_def)
  have m: "Method ?r = ''GET''"
    and e: "FormValue ?r ''error'' = []"
    and c: "FormValue ?r ''code'' \<noteq> []"
    and k: "CookieNamed ?r StateCookieName = Some ''e30=''"
    and f: "FormValue ?r ''state'' = ''e30=''"
    by (simp_all add: callbackRequest_def getRequest_def FormValue_def CookieNamed_def
          StateCookieName_def)
  from Callback_nil_provider [OF n i m e c k f decodeState_empty_object,
         of grantingWorld "getRequest ''/oauth2''"] n i decodeState_empty_object
  show ?thesis
    by simp
qed

section \<open>PKCE\<close>

lemma verifierChars_unreserved: "list_all unreserved verifierChars"
  by (simp add: verifierChars_def unreserved_def isLetter_def isDigit_def)

text \<open>
  C7. \<open>NewCodeVerifier\<close> fails with \<open>InvalidRange\<close> whenever \<open>minLength > maxLength\<close>
  or a bound lies outside [43, 128]. For every pair with
  \<open>43 \<le> minLength \<le> maxLength \<le> 128\<close> and every random source it returns a verifier
  whose length lies in \<open>[minLength, maxLength]\<close> and whose characters are all
  unreserved. The code challenge is a function of the verifier's raw value alone.
\<close>

theorem NewCodeVerifier_range:
  "((minLength > maxLength \<or> minLength < 43 \<or> 128 < minLength \<or> maxLength < 43
       \<or> 128 < maxLength) \<longrightarrow>
      NewCodeVerifier rnd minLength maxLength = Inl InvalidRange)
   \<and> (43 \<le> minLength \<and> minLength \<le> maxLength \<and> maxLength \<le> 128 \<longrightarrow>
        (\<exists>v. NewCodeVerifier rnd minLength maxLength = Inr v
            \<and> minLength \<le> int (length (RawValue v))
            \<and> int (length (RawValue v)) \<le> maxLength
            \<and> (\<forall>c \<in> set (RawValue v). unreserved c)))
   \<and> (\<forall>v v'. RawValue v = RawValue v' \<longrightarrow> CodeChallenge sha v = CodeChallenge sha v')"
proof -
  have bad: "minLength > maxLength \<or> minLength < 43 \<or> 128 < minLength \<or> maxLength < 43
       \<or> 128 < maxLength \<Longrightarrow> NewCodeVerifier rnd minLength maxLength = Inl InvalidRange"
    by (auto simp: NewCodeVerifier_def)
  have good: "\<exists>v. NewCodeVerifier rnd minLength maxLength = Inr v
            \<and> minLength \<le> int (length (RawValue v))
            \<and> int (length (RawValue v)) \<le> maxLength
            \<and> (\<forall>c \<in> set (RawValue v). unreserved c)"
    if r: "43 \<le> minLength" "minLength \<le> maxLength" "maxLength \<le> 128"
  proof -
    let ?n = "nat minLength + rnd 0 mod (nat (maxLength - minLength) + 1)"
    let ?v = "\<lparr>RawValue = map (\<lambda>i. verifierChars ! (rnd (Suc i) mod length verifierChars)) [0..<?n]\<rparr>"
    have eq: "NewCodeVerifier rnd minLength maxLength = Inr ?v"
      using r by (simp add: NewCodeVerifier_def Let_def)
    have "rnd 0 mod (nat (maxLength - minLength) + 1) < nat (maxLength - minLength) + 1"
      by (rule mod_less_divisor) simp
    with r have len: "minLength \<le> int ?n" "int ?n \<le> maxLength"
      by linarith+
    have pos: "0 < length verifierChars"
      by (simp add: verifierChars_def)
    have "unreserved (verifierChars ! (k mod length verifierChars))" for k
      using verifierChars_unreserved pos
      by (simp add: list_all_length)
    then have chars: "\<forall>c \<in> set (RawValue ?v). unreserved c"
      by auto
    from eq len chars show ?thesis
      by (intro exI [of _ ?v]) simp
  qed
  have det: "RawValue v = RawValue v' \<Longrightarrow> CodeChallenge sha v = CodeChallenge sha v'"
    for v v'
    by (simp add: CodeChallenge_def)
  from bad good det show ?thesis
    by blast
qed

theorem NewCodeVerifier_range_witness:
  "NewCodeVerifier sevens 5 10 = Inl InvalidRange
   \<and> (\<exists>v. NewCodeVerifier sevens 43 50 = Inr v
          \<and> 43 \<le> int (length (RawValue v)) \<and> int (length (RawValue v)) \<le> 50
          \<and> (\<forall>c \<in> set (RawValue v). unreserved c))"
proof -
  have r: "(43::int) \<le> 43 \<and> (43::int) \<le> 50 \<and> (50::int) \<le> 128"
    by simp
  from NewCodeVerifier_range
         [where minLength = 5 and maxLength = 10 and rnd = sevens and sha = shaStub]
  have a: "NewCodeVerifier sevens 5 10 = Inl InvalidRange"
    by simp
  from NewCodeVerifier_range
         [where minLength = 43 and maxLength = 50 and rnd = sevens and sha = shaStub] r
  have b: "\<exists>v. NewCodeVerifier sevens 43 50 = Inr v
          \<and> 43 \<le> int (length (RawValue v)) \<and> int (length (RawValue v)) \<le> 50
          \<and> (\<forall>c \<in> set (RawValue v). unreserved c)"
    by blast
  from a b show ?thesis
    by (rule conjI)
qed




section \<open>Base64: decoding what was encoded\<close>

lemma indexOf_nth: "distinct xs \<Longrightarrow> n < length xs \<Longrightarrow> indexOf (xs ! n) xs = Some n"
proof (induction xs arbitrary: n)
  case Nil
  then show ?case by simp
next
  case (Cons x xs)
  show ?case
  proof (cases n)
    case 0
    then show ?thesis by simp
  next
    case (Suc m)
    with Cons.prems have "xs ! m \<in> set xs" "x \<notin> set xs"
      by auto
    then have "xs ! m \<noteq> x"
      by blast
    with Cons Suc show ?thesis
      by simp
  qed
qed

lemma encodeStd_props: "length encodeStd = 64" "distinct encodeStd"
  "padChar \<notin> set encodeStd" "CHR 0x0A \<notin> set encodeStd" "CHR 0x0D \<notin> set encodeStd"
  by (simp_all add: encodeStd_def padChar_def)

lemma decodeMap_encodeStd: "n < 64 \<Longrightarrow> decodeMap (encodeStd ! n) = Some n"
  by (simp add: decodeMap_def indexOf_nth encodeStd_props)

lemma indexOf_None: "x \<notin> set xs \<Longrightarrow> indexOf x xs = None"
  by (induction xs) auto

lemma decodeMap_padChar: "decodeMap padChar = None"
  by (simp add: decodeMap_def indexOf_None encodeStd_props)

lemma encodeStd_not_line_end:
  "n < 64 \<Longrightarrow> encodeStd ! n \<noteq> CHR 0x0A \<and> encodeStd ! n \<noteq> CHR 0x0D"
  using encodeStd_props nth_mem [of n encodeStd] by metis

lemma recombine:
  fixes v :: nat
  assumes "v = q1 * 64 + r1" "q1 = q2 * 64 + r2" "q2 = q3 * 64 + r3"
  shows "q3 * 262144 + r3 * 4096 + r2 * 64 + r1 = v"
  using assms by simp

lemma sextets:
  fixes v :: nat
  shows "v div 262144 * 262144 + v div 4096 mod 64 * 4096 + v div 64 mod 64 * 64 + v mod 64 = v"
proof -
  have d2: "v div 4096 = v div 64 div 64"
    using div_mult2_eq [of v 64 64] by simp
  have d3: "v div 262144 = v div 64 div 64 div 64"
    using div_mult2_eq [of v 4096 64] d2 by simp
  show ?thesis
    unfolding d2 d3
    by (rule recombine) simp_all
qed

lemma sextet_bound:
  fixes v :: nat
  shows "v < 16777216 \<Longrightarrow> v div 262144 < 64"
  by (simp add: less_mult_imp_div_less)

lemma quantum_bytes:
  fixes a b c :: nat
  assumes "a < 256" "b < 256" "c < 256"
  shows "a * 65536 + b * 256 + c < 16777216"
    and "(a * 65536 + b * 256 + c) div 65536 = a"
    and "(a * 65536 + b * 256 + c) div 256 mod 256 = b"
    and "(a * 65536 + b * 256 + c) mod 256 = c"
proof -
  show "a * 65536 + b * 256 + c < 16777216"
    using assms by linarith
  have e: "a * 65536 + b * 256 + c = (a * 256 + b) * 256 + c"
    by simp
  have "b * 256 + c < 65536"
    using assms by linarith
  then show "(a * 65536 + b * 256 + c) div 65536 = a"
    by (simp add: add.assoc)
  have d: "(a * 65536 + b * 256 + c) div 256 = a * 256 + b"
    unfolding e using assms by simp
  show "(a * 65536 + b * 256 + c) div 256 mod 256 = b"
    unfolding d using assms by simp
  have "((a * 256 + b) * 256 + c) mod 256 = c"
    using assms(3) by (simp only: mod_mult_self3 mod_less)
  then show "(a * 65536 + b * 256 + c) mod 256 = c"
    unfolding e .
qed

lemma char_of_byte:
  fixes n :: nat
  shows "n mod 256 = of_char c \<Longrightarrow> char_of n = c"
  by (simp add: char_of_eq_iff take_bit_eq_mod)

lemma quantum_sextets:
  fixes a b c :: char
  defines "val \<equiv> (of_char a :: nat) * 65536 + of_char b * 256 + of_char c"
  shows "quantum (val div 262144) (val div 4096 mod 64) (val div 64 mod 64) (val mod 64)
           = [a, b, c]"
proof -
  have v: "val div 65536 = of_char a" "val div 256 mod 256 = of_char b" "val mod 256 = of_char c"
    unfolding val_def by (rule quantum_bytes; simp)+
  have "char_of (val div 65536) = a" "char_of (val div 256) = b" "char_of val = c"
    using v by (simp_all add: char_of_byte)
  then show ?thesis
    by (simp add: quantum_def sextets)
qed

lemma quantum_two:
  fixes a b :: char
  defines "val \<equiv> (of_char a :: nat) * 65536 + of_char b * 256"
  shows "take 2 (quantum (val div 262144) (val div 4096 mod 64) (val div 64 mod 64) 0) = [a, b]"
proof -
  have "val = (of_char a * 1024 + of_char b * 4) * 64"
    by (simp add: val_def)
  then have m: "val mod 64 = 0"
    by (simp only: mod_mult_self2_is_0)
  have v: "val div 65536 = of_char a" "val div 256 mod 256 = of_char b"
    using quantum_bytes(2,3) [of "of_char a" "of_char b" 0] by (simp_all add: val_def)
  have "char_of (val div 65536) = a" "char_of (val div 256) = b"
    using v by (simp_all add: char_of_byte)
  moreover have "val div 262144 * 262144 + val div 4096 mod 64 * 4096 + val div 64 mod 64 * 64
                   = val"
    using sextets [of val] m by simp
  ultimately show ?thesis
    by (simp add: quantum_def)
qed

lemma quantum_one:
  fixes a :: char
  defines "val \<equiv> (of_char a :: nat) * 65536"
  shows "take 1 (quantum (val div 262144) (val div 4096 mod 64) 0 0) = [a]"
proof -
  have v: "val div 65536 = of_char a"
    by (simp add: val_def)
  have r: "x = d * 64 + m \<Longrightarrow> d * 262144 + m * 4096 = x * 4096" for x d m :: nat
    by simp
  have "val div 262144 = val div 4096 div 64"
    using div_mult2_eq [of val 4096 64] by simp
  then have "val div 262144 * 262144 + val div 4096 mod 64 * 4096 = val div 4096 * 4096"
    by (simp only:) (rule r, simp)
  moreover have "val = of_char a * 16 * 4096"
    by (simp add: val_def)
  then have "val div 4096 * 4096 = val"
    by simp
  ultimately have "(val div 262144 * 262144 + val div 4096 mod 64 * 4096) div 65536 = of_char a"
    using v by simp
  then show ?thesis
    by (simp add: quantum_def char_of_byte)
qed

lemma decodeQuanta_EncodeToString: "decodeQuanta (EncodeToString src) = Some src"
proof (induction src rule: EncodeToString.induct)
  case (1 a b c src)
  let ?val = "(of_char a :: nat) * 65536 + of_char b * 256 + of_char c"
  have lt: "?val < 16777216"
    by (rule quantum_bytes) simp_all
  then have s: "?val div 262144 < 64"
    by (rule sextet_bound)
  show ?case
    using 1 s quantum_sextets [of a b c]
    by (simp add: Let_def decodeMap_encodeStd)
next
  case (2 a b)
  let ?val = "(of_char a :: nat) * 65536 + of_char b * 256"
  have lt: "?val < 16777216"
    using quantum_bytes(1) [of "of_char a" "of_char b" 0] by simp
  then have s: "?val div 262144 < 64"
    by (rule sextet_bound)
  show ?case
    using s quantum_two [of a b]
    by (simp add: Let_def decodeMap_encodeStd decodeMap_padChar)
next
  case (3 a)
  let ?val = "(of_char a :: nat) * 65536"
  have lt: "?val < 16777216"
    using quantum_bytes(1) [of "of_char a" 0 0] by simp
  then have s: "?val div 262144 < 64"
    by (rule sextet_bound)
  show ?case
    using s quantum_one [of a]
    by (simp add: Let_def decodeMap_encodeStd decodeMap_padChar)
next
  case 4
  show ?case by simp
qed

lemma EncodeToString_no_line_end:
  "filter (\<lambda>c. c \<noteq> CHR 0x0A \<and> c \<noteq> CHR 0x0D) (EncodeToString src) = EncodeToString src"
proof (induction src rule: EncodeToString.induct)
  case (1 a b c src)
  let ?val = "(of_char a :: nat) * 65536 + of_char b * 256 + of_char c"
  have "?val < 16777216"
    by (rule quantum_bytes) simp_all
  then have "?val div 262144 < 64"
    by (rule sextet_bound)
  with 1 show ?case
    by (simp add: Let_def encodeStd_not_line_end)
next
  case (2 a b)
  let ?val = "(of_char a :: nat) * 65536 + of_char b * 256"
  have "?val < 16777216"
    using quantum_bytes(1) [of "of_char a" "of_char b" 0] by simp
  then have "?val div 262144 < 64"
    by (rule sextet_bound)
  then show ?case
    by (simp add: Let_def encodeStd_not_line_end padChar_def)
next
  case (3 a)
  let ?val = "(of_char a :: nat) * 65536"
  have "?val < 16777216"
    using quantum_bytes(1) [of "of_char a" 0 0] by simp
  then have "?val div 262144 < 64"
    by (rule sextet_bound)
  then show ?case
    by (simp add: Let_def encodeStd_not_line_end padChar_def)
next
  case 4
  show ?case by simp
qed

lemma DecodeString_EncodeToString: "DecodeString (EncodeToString src) = Inr src"
  by (simp add: DecodeString_def EncodeToString_no_line_end decodeQuanta_EncodeToString)

section \<open>UTF-8: the shape of a decoded rune\<close>

lemma digits64_2:
  fixes x y :: nat
  assumes "y < 64"
  shows "(x * 64 + y) div 64 = x" "(x * 64 + y) mod 64 = y"
  using assms by simp_all

lemma digits64_3:
  fixes x y z :: nat
  assumes "y < 64" "z < 64"
  shows "(x * 4096 + y * 64 + z) div 4096 = x"
    and "(x * 4096 + y * 64 + z) div 64 mod 64 = y"
    and "(x * 4096 + y * 64 + z) mod 64 = z"
proof -
  have e: "x * 4096 + y * 64 + z = (x * 64 + y) * 64 + z"
    by simp
  have "y * 64 + z < 4096"
    using assms by linarith
  then show "(x * 4096 + y * 64 + z) div 4096 = x"
    by (simp add: add.assoc)
  have d: "((x * 64 + y) * 64 + z) div 64 = x * 64 + y"
    using assms(2) by simp
  show "(x * 4096 + y * 64 + z) div 64 mod 64 = y"
    unfolding e d using assms(1) by simp
  have "((x * 64 + y) * 64 + z) mod 64 = z"
    using assms(2) by (simp only: mod_mult_self3 mod_less)
  then show "(x * 4096 + y * 64 + z) mod 64 = z"
    unfolding e .
qed

lemma digits64_4:
  fixes x y z u :: nat
  assumes "y < 64" "z < 64" "u < 64"
  shows "(x * 262144 + y * 4096 + z * 64 + u) div 262144 = x"
    and "(x * 262144 + y * 4096 + z * 64 + u) div 4096 mod 64 = y"
    and "(x * 262144 + y * 4096 + z * 64 + u) div 64 mod 64 = z"
    and "(x * 262144 + y * 4096 + z * 64 + u) mod 64 = u"
proof -
  have e: "x * 262144 + y * 4096 + z * 64 + u = (x * 64 + y) * 4096 + z * 64 + u"
    by simp
  have "y * 4096 + z * 64 + u < 262144"
    using assms by linarith
  then show "(x * 262144 + y * 4096 + z * 64 + u) div 262144 = x"
    by (simp add: add.assoc)
  from digits64_3 [of z u "x * 64 + y"] assms
  have d: "((x * 64 + y) * 4096 + z * 64 + u) div 4096 = x * 64 + y"
    "((x * 64 + y) * 4096 + z * 64 + u) div 64 mod 64 = z"
    "((x * 64 + y) * 4096 + z * 64 + u) mod 64 = u"
    by simp_all
  show "(x * 262144 + y * 4096 + z * 64 + u) div 4096 mod 64 = y"
    unfolding e d(1) using assms(1) by simp
  show "(x * 262144 + y * 4096 + z * 64 + u) div 64 mod 64 = z"
    unfolding e by (rule d(2))
  show "(x * 262144 + y * 4096 + z * 64 + u) mod 64 = u"
    unfolding e by (rule d(3))
qed

lemma EncodeRune_2:
  fixes x y :: nat
  assumes "2 \<le> x" "x < 32" "y < 64"
  shows "EncodeRune (x * 64 + y) = [char_of (0xC0 + x), char_of (0x80 + y)]"
proof -
  have "\<not> x * 64 + y \<le> 0x7F" "x * 64 + y \<le> 0x7FF"
    using assms by linarith+
  then show ?thesis
    using digits64_2 [OF assms(3), of x] by (simp add: EncodeRune_def)
qed

lemma EncodeRune_3:
  fixes x y z :: nat
  assumes "x < 16" "y < 64" "z < 64" "x = 0 \<longrightarrow> 32 \<le> y" "x = 13 \<longrightarrow> y < 32"
  shows "EncodeRune (x * 4096 + y * 64 + z)
           = [char_of (0xE0 + x), char_of (0x80 + y), char_of (0x80 + z)]"
proof -
  let ?r = "x * 4096 + y * 64 + z"
  have lo: "\<not> ?r \<le> 0x7FF"
  proof (cases "x = 0")
    case True
    with assms show ?thesis by simp
  next
    case False
    then have "1 \<le> x" by simp
    then show ?thesis by linarith
  qed
  have hi: "?r \<le> 0xFFFF" "\<not> 0x10FFFF < ?r"
    using assms by linarith+
  have sur: "\<not> (0xD800 \<le> ?r \<and> ?r \<le> 0xDFFF)"
  proof -
    consider "x \<le> 12" | "x = 13" | "14 \<le> x"
      by linarith
    then show ?thesis
    proof cases
      case 1
      with assms show ?thesis by linarith
    next
      case 2
      with assms have "y < 32" by simp
      with 2 assms show ?thesis by linarith
    next
      case 3
      then show ?thesis by linarith
    qed
  qed
  have "\<not> ?r \<le> 0x7F"
    using lo by linarith
  with lo hi sur show ?thesis
    using digits64_3 [OF assms(2,3), of x] by (auto simp: EncodeRune_def)
qed

lemma EncodeRune_4:
  fixes x y z u :: nat
  assumes "x \<le> 4" "y < 64" "z < 64" "u < 64" "x = 0 \<longrightarrow> 16 \<le> y" "x = 4 \<longrightarrow> y < 16"
  shows "EncodeRune (x * 262144 + y * 4096 + z * 64 + u)
           = [char_of (0xF0 + x), char_of (0x80 + y), char_of (0x80 + z), char_of (0x80 + u)]"
proof -
  let ?r = "x * 262144 + y * 4096 + z * 64 + u"
  have lo: "\<not> ?r \<le> 0xFFFF"
  proof (cases "x = 0")
    case True
    with assms show ?thesis by simp
  next
    case False
    then have "1 \<le> x" by simp
    then show ?thesis by linarith
  qed
  have hi: "\<not> 0x10FFFF < ?r"
  proof (cases "x = 4")
    case True
    with assms have "y < 16" by simp
    with True assms show ?thesis by linarith
  next
    case False
    with assms have "x \<le> 3" by simp
    with assms show ?thesis by linarith
  qed
  have "\<not> ?r \<le> 0x7F" "\<not> ?r \<le> 0x7FF" "\<not> (0xD800 \<le> ?r \<and> ?r \<le> 0xDFFF)"
    using lo by linarith+
  with lo hi show ?thesis
    using digits64_4 [OF assms(2,3,4), of x] by (simp add: EncodeRune_def)
qed


lemma decodeBytes_cases:
  assumes "decodeBytes bs = (r, n)" and "\<not> (r = RuneError \<and> n = 1)" and "bs \<noteq> []"
    and "0x80 \<le> hd bs"
  obtains (two) b0 b1 t where "bs = b0 # b1 # t" "0xC2 \<le> b0" "b0 < 0xE0" "0x80 \<le> b1"
      "b1 \<le> 0xBF" "n = 2" "r = b0 mod 32 * 64 + b1 mod 64"
  | (three) b0 b1 b2 t where "bs = b0 # b1 # b2 # t" "0xE0 \<le> b0" "b0 < 0xF0"
      "inRange (acceptRange b0) b1" "0x80 \<le> b2" "b2 \<le> 0xBF" "n = 3"
      "r = b0 mod 16 * 4096 + b1 mod 64 * 64 + b2 mod 64"
  | (four) b0 b1 b2 b3 t where "bs = b0 # b1 # b2 # b3 # t" "0xF0 \<le> b0" "b0 \<le> 0xF4"
      "inRange (acceptRange b0) b1" "0x80 \<le> b2" "b2 \<le> 0xBF" "0x80 \<le> b3" "b3 \<le> 0xBF"
      "n = 4" "r = b0 mod 8 * 262144 + b1 mod 64 * 4096 + b2 mod 64 * 64 + b3 mod 64"
proof (cases bs)
  case Nil
  with assms(3) show ?thesis by simp
next
  case (Cons b0 t0)
  with assms(4) have hi: "\<not> b0 < 0x80"
    by simp
  show ?thesis
  proof (cases "b0 < 0xC2 \<or> 0xF4 < b0")
    case True
    with Cons hi assms(1,2) show ?thesis
      by auto
  next
    case ok: False
    show ?thesis
    proof (cases t0)
      case Nil
      with Cons hi ok assms(1,2) show ?thesis by auto
    next
      case c1: (Cons b1 t1)
      show ?thesis
      proof (cases "inRange (acceptRange b0) b1")
        case False
        with Cons c1 hi ok assms(1,2) show ?thesis by auto
      next
        case r1: True
        show ?thesis
        proof (cases "b0 < 0xE0")
          case True
          with r1 have "0x80 \<le> b1" "b1 \<le> 0xBF"
            by (auto simp: inRange_def acceptRange_def)
          moreover from True Cons c1 hi ok r1 assms(1)
          have "n = 2" "r = b0 mod 32 * 64 + b1 mod 64"
            by auto
          ultimately show ?thesis
            using two [of b0 b1 t1] Cons c1 ok True by auto
        next
          case ge: False
          show ?thesis
          proof (cases t1)
            case Nil
            with Cons c1 hi ok r1 ge assms(1,2) show ?thesis by auto
          next
            case c2: (Cons b2 t2)
            show ?thesis
            proof (cases "inRange (0x80, 0xBF) b2")
              case False
              with Cons c1 c2 hi ok r1 ge assms(1,2) show ?thesis by auto
            next
              case r2: True
              then have b2: "0x80 \<le> b2" "b2 \<le> 0xBF"
                by (auto simp: inRange_def)
              show ?thesis
              proof (cases "b0 < 0xF0")
                case True
                with Cons c1 c2 hi ok r1 r2 ge assms(1)
                have "n = 3" "r = b0 mod 16 * 4096 + b1 mod 64 * 64 + b2 mod 64"
                  by auto
                then show ?thesis
                  using three [of b0 b1 b2 t2] Cons c1 c2 ge True r1 b2 by auto
              next
                case g4: False
                show ?thesis
                proof (cases t2)
                  case Nil
                  with Cons c1 c2 hi ok r1 r2 ge g4 assms(1,2) show ?thesis by auto
                next
                  case c3: (Cons b3 t3)
                  show ?thesis
                  proof (cases "inRange (0x80, 0xBF) b3")
                    case False
                    with Cons c1 c2 c3 hi ok r1 r2 ge g4 assms(1,2) show ?thesis by auto
                  next
                    case r3: True
                    then have b3: "0x80 \<le> b3" "b3 \<le> 0xBF"
                      by (auto simp: inRange_def)
                    from Cons c1 c2 c3 hi ok r1 r2 r3 ge g4 assms(1)
                    have "n = 4"
                      "r = b0 mod 8 * 262144 + b1 mod 64 * 4096 + b2 mod 64 * 64 + b3 mod 64"
                      by auto
                    then show ?thesis
                      using four [of b0 b1 b2 b3 t3] Cons c1 c2 c3 ok g4 r1 b2 b3 by auto
                  qed
                qed
              qed
            qed
          qed
        qed
      qed
    qed
  qed
qed


lemma lead_mod:
  fixes k :: nat
  shows "k < 32 \<Longrightarrow> (192 + k) mod 32 = k"
    and "k < 64 \<Longrightarrow> (128 + k) mod 64 = k"
    and "k < 16 \<Longrightarrow> (224 + k) mod 16 = k"
    and "k < 8 \<Longrightarrow> (240 + k) mod 8 = k"
proof -
  have a: "(192::nat) = 6 * 32" "(128::nat) = 2 * 64" "(224::nat) = 14 * 16" "(240::nat) = 30 * 8"
    by simp_all
  show "k < 32 \<Longrightarrow> (192 + k) mod 32 = k"
    unfolding a(1) by (simp only: mod_mult_self3 mod_less)
  show "k < 64 \<Longrightarrow> (128 + k) mod 64 = k"
    unfolding a(2) by (simp only: mod_mult_self3 mod_less)
  show "k < 16 \<Longrightarrow> (224 + k) mod 16 = k"
    unfolding a(3) by (simp only: mod_mult_self3 mod_less)
  show "k < 8 \<Longrightarrow> (240 + k) mod 8 = k"
    unfolding a(4) by (simp only: mod_mult_self3 mod_less)
qed

lemma cont_byte:
  fixes b :: nat
  assumes "0x80 \<le> b" "b \<le> 0xBF"
  shows "b mod 64 < 64" "0x80 + b mod 64 = b"
proof -
  define k where "k = b - 128"
  from assms have k: "b = 128 + k" "k < 64"
    by (simp_all add: k_def)
  show "b mod 64 < 64"
    by simp
  from k show "0x80 + b mod 64 = b"
    by (simp add: lead_mod)
qed


lemma accept_cont:
  assumes "inRange (acceptRange b0) b1"
  shows "0x80 \<le> b1" "b1 \<le> 0xBF"
  using assms by (auto simp: inRange_def acceptRange_def split: if_splits)

lemma decodeBytes_valid:
  assumes d: "decodeBytes bs = (r, n)" and v: "\<not> (r = RuneError \<and> n = 1)" and ne: "bs \<noteq> []"
    and hi: "0x80 \<le> hd bs"
  shows "2 \<le> n \<and> n \<le> 4 \<and> n \<le> length bs
       \<and> EncodeRune r = map char_of (take n bs)
       \<and> (\<forall>b \<in> set (take n bs). 0x80 \<le> b)
       \<and> (\<forall>ys. decodeBytes (take n bs @ ys) = (r, n))"
  using d v ne hi
proof (cases rule: decodeBytes_cases)
  case (two b0 b1 t)
  define x where "x = b0 - 192"
  from two have x: "b0 = 192 + x" "2 \<le> x" "x < 32"
    by (simp_all add: x_def)
  then have m: "b0 mod 32 = x"
    by (simp add: lead_mod)
  from two have y: "b1 mod 64 < 64" "0x80 + b1 mod 64 = b1"
    by (simp_all add: cont_byte)
  have "EncodeRune r = [char_of b0, char_of b1]"
    using EncodeRune_2 [OF x(2,3) y(1)] y(2) x(1) two(7) m by simp
  moreover have "decodeBytes ([b0, b1] @ ys) = (r, n)" for ys
    using two by (simp add: inRange_def acceptRange_def)
  ultimately show ?thesis
    using two by simp
next
  case (three b0 b1 b2 t)
  define x where "x = b0 - 224"
  from three have x: "b0 = 224 + x" "x < 16"
    by (simp_all add: x_def)
  then have m: "b0 mod 16 = x"
    by (simp add: lead_mod)
  from three(4) have b1: "0x80 \<le> b1" "b1 \<le> 0xBF"
    by (rule accept_cont)+
  then have y: "b1 mod 64 < 64" "0x80 + b1 mod 64 = b1"
    by (simp_all add: cont_byte)
  from three have z: "b2 mod 64 < 64" "0x80 + b2 mod 64 = b2"
    by (simp_all add: cont_byte)
  have c0: "x = 0 \<longrightarrow> 32 \<le> b1 mod 64"
  proof
    assume "x = 0"
    with x three(4) have "0xA0 \<le> b1"
      by (simp add: inRange_def acceptRange_def)
    with y(2) show "32 \<le> b1 mod 64"
      by linarith
  qed
  have c13: "x = 13 \<longrightarrow> b1 mod 64 < 32"
  proof
    assume "x = 13"
    with x three(4) have "b1 \<le> 0x9F"
      by (simp add: inRange_def acceptRange_def)
    with y(2) show "b1 mod 64 < 32"
      by linarith
  qed
  have "EncodeRune r = [char_of b0, char_of b1, char_of b2]"
    using EncodeRune_3 [OF x(2) y(1) z(1) c0 c13] y(2) z(2) x(1) three(8) m by simp
  moreover have "decodeBytes ([b0, b1, b2] @ ys) = (r, n)" for ys
    using three by (simp add: inRange_def)
  ultimately show ?thesis
    using three b1 by simp
next
  case (four b0 b1 b2 b3 t)
  define x where "x = b0 - 240"
  from four have x: "b0 = 240 + x" "x \<le> 4"
    by (simp_all add: x_def)
  then have m: "b0 mod 8 = x"
    by (simp add: lead_mod)
  from four(4) have b1: "0x80 \<le> b1" "b1 \<le> 0xBF"
    by (rule accept_cont)+
  then have y: "b1 mod 64 < 64" "0x80 + b1 mod 64 = b1"
    by (simp_all add: cont_byte)
  from four have z: "b2 mod 64 < 64" "0x80 + b2 mod 64 = b2"
    by (simp_all add: cont_byte)
  from four have u: "b3 mod 64 < 64" "0x80 + b3 mod 64 = b3"
    by (simp_all add: cont_byte)
  have c0: "x = 0 \<longrightarrow> 16 \<le> b1 mod 64"
  proof
    assume "x = 0"
    with x four(4) have "0x90 \<le> b1"
      by (simp add: inRange_def acceptRange_def)
    with y(2) show "16 \<le> b1 mod 64"
      by linarith
  qed
  have c4: "x = 4 \<longrightarrow> b1 mod 64 < 16"
  proof
    assume "x = 4"
    with x four(4) have "b1 \<le> 0x8F"
      by (simp add: inRange_def acceptRange_def)
    with y(2) show "b1 mod 64 < 16"
      by linarith
  qed
  have "EncodeRune r = [char_of b0, char_of b1, char_of b2, char_of b3]"
    using EncodeRune_4 [OF x(2) y(1) z(1) u(1) c0 c4] y(2) z(2) u(2) x(1) four(10) m by simp
  moreover have "decodeBytes ([b0, b1, b2, b3] @ ys) = (r, n)" for ys
    using four by (simp add: inRange_def)
  ultimately show ?thesis
    using four b1 by simp
qed

lemma DecodeRune_valid:
  assumes d: "DecodeRune (c # cs) = (r, n)" and hi: "0x80 \<le> (of_char c :: nat)"
    and v: "\<not> (r = RuneError \<and> n = 1)"
  shows "2 \<le> n" and "n \<le> Suc (length cs)" and "EncodeRune r = take n (c # cs)"
    and "\<forall>x \<in> set (take n (c # cs)). 0x80 \<le> (of_char x :: nat)"
    and "DecodeRune (take n (c # cs) @ ys) = (r, n)"
proof -
  let ?bs = "map of_char (take 4 (c # cs)) :: nat list"
  from d have d': "decodeBytes ?bs = (r, n)"
    by (simp add: DecodeRune_def)
  have ne: "?bs \<noteq> []" and h: "0x80 \<le> hd ?bs"
    using hi by simp_all
  note V = decodeBytes_valid [OF d' v ne h]
  from V show n2: "2 \<le> n" by simp
  from V have n4: "n \<le> 4" and nl: "n \<le> length ?bs"
    by simp_all
  from nl show "n \<le> Suc (length cs)"
    by simp
  have tt: "take n (take 4 (c # cs)) = take n (c # cs)"
    using n4 by (simp only: take_take min.absorb1)
  have t: "take n ?bs = map of_char (take n (c # cs))"
    by (simp only: take_map tt)
  from V have "EncodeRune r = map char_of (take n ?bs)"
    by simp
  then show "EncodeRune r = take n (c # cs)"
    unfolding t by (simp add: comp_def)
  from V have "\<forall>b \<in> set (take n ?bs). 0x80 \<le> b"
    by simp
  then show "\<forall>x \<in> set (take n (c # cs)). 0x80 \<le> (of_char x :: nat)"
    unfolding t by simp
  from V have "decodeBytes (take n ?bs @ map of_char (take (4 - n) ys)) = (r, n)"
    by blast
  moreover have "map of_char (take 4 (take n (c # cs) @ ys))
                   = take n ?bs @ map of_char (take (4 - n) ys)"
  proof -
    from nl have l: "length (take n (c # cs)) = n"
      by simp
    have "take 4 (take n (c # cs)) = take n (c # cs)"
      using n4 by (simp only: take_take min.absorb2)
    then have "take 4 (take n (c # cs) @ ys) = take n (c # cs) @ take (4 - n) ys"
      by (simp only: take_append l)
    then show ?thesis
      by (simp only: t map_append)
  qed
  ultimately show "DecodeRune (take n (c # cs) @ ys) = (r, n)"
    by (simp only: DecodeRune_def)
qed

section \<open>JSON strings: reading what was written\<close>

lemma hexValue_hex: "k < 16 \<Longrightarrow> hexValue (hex ! k) = Some k"
proof -
  assume "k < 16"
  then have "k = 0 \<or> k = 1 \<or> k = 2 \<or> k = 3 \<or> k = 4 \<or> k = 5 \<or> k = 6 \<or> k = 7
    \<or> k = 8 \<or> k = 9 \<or> k = 10 \<or> k = 11 \<or> k = 12 \<or> k = 13 \<or> k = 14 \<or> k = 15"
    by presburger
  then show ?thesis
    by (elim disjE) (simp_all add: hex_def hexValue_def)
qed

lemma unit_safe:
  assumes "htmlSafeSet (of_char c)"
  shows "scanString (c # ys) = map_option (\<lambda>(l, r). (c # l, r)) (scanString ys)"
    and "unquote (c # ys) = map_option ((#) c) (unquote ys)"
  using assms by (auto simp: htmlSafeSet_def quote_def backslash_def)

lemma unit_pair:
  assumes "c = backslash \<or> c = quote"
  shows "scanString (backslash # c # ys)
           = map_option (\<lambda>(l, r). (backslash # c # l, r)) (scanString ys)"
    and "unquote (backslash # c # ys) = map_option ((#) c) (unquote ys)"
  using assms by (auto simp: quote_def backslash_def)

lemma unit_ctl:
  shows "scanString (backslash # CHR ''n'' # ys)
           = map_option (\<lambda>(l, r). (backslash # CHR ''n'' # l, r)) (scanString ys)"
    and "unquote (backslash # CHR ''n'' # ys) = map_option ((#) (CHR 0x0A)) (unquote ys)"
    and "scanString (backslash # CHR ''r'' # ys)
           = map_option (\<lambda>(l, r). (backslash # CHR ''r'' # l, r)) (scanString ys)"
    and "unquote (backslash # CHR ''r'' # ys) = map_option ((#) (CHR 0x0D)) (unquote ys)"
    and "scanString (backslash # CHR ''t'' # ys)
           = map_option (\<lambda>(l, r). (backslash # CHR ''t'' # l, r)) (scanString ys)"
    and "unquote (backslash # CHR ''t'' # ys) = map_option ((#) (CHR 0x09)) (unquote ys)"
  by (simp_all add: quote_def backslash_def)


lemma getu4_hex:
  assumes "hexValue h1 = Some a" "hexValue h2 = Some b" "hexValue h3 = Some c"
    "hexValue h4 = Some d"
  shows "getu4 (backslash # CHR ''u'' # h1 # h2 # h3 # h4 # ys)
           = Some (a * 4096 + b * 256 + c * 16 + d)"
  using assms by (simp add: getu4_def)

lemma scan_u:
  assumes "hexValue h1 \<noteq> None" "hexValue h2 \<noteq> None" "hexValue h3 \<noteq> None"
    "hexValue h4 \<noteq> None"
  shows "scanString (backslash # CHR ''u'' # h1 # h2 # h3 # h4 # ys)
           = map_option (\<lambda>(l, r). (backslash # CHR ''u'' # h1 # h2 # h3 # h4 # l, r))
               (scanString ys)"
  using assms by (simp add: quote_def backslash_def)

lemma unquote_u:
  assumes "getu4 (backslash # CHR ''u'' # h1 # h2 # h3 # h4 # ys) = Some rr"
    and "\<not> IsSurrogate rr"
  shows "unquote (backslash # CHR ''u'' # h1 # h2 # h3 # h4 # ys)
           = map_option ((@) (EncodeRune rr)) (unquote ys)"
  using assms by (simp add: quote_def backslash_def)

lemma hex_digits: "hexValue (CHR ''0'') = Some 0" "hexValue (CHR ''2'') = Some 2"
  "hexValue (CHR ''f'') = Some 15" "hexValue (CHR ''d'') = Some 13"
  by (simp_all add: hexValue_def)

lemma cons_append_op: "(@) [c] = (#) c"
  by (rule ext) simp

lemma unit_u00:
  assumes "(of_char c :: nat) < 0x80"
  shows "scanString (backslash # CHR ''u'' # CHR ''0'' # CHR ''0'' # hex ! (of_char c div 16)
                      # hex ! (of_char c mod 16) # ys)
           = map_option (\<lambda>(l, r). (backslash # CHR ''u'' # CHR ''0'' # CHR ''0''
                                     # hex ! (of_char c div 16) # hex ! (of_char c mod 16) # l, r))
               (scanString ys)"
    and "unquote (backslash # CHR ''u'' # CHR ''0'' # CHR ''0'' # hex ! (of_char c div 16)
                   # hex ! (of_char c mod 16) # ys)
           = map_option ((#) c) (unquote ys)"
proof -
  let ?b = "of_char c :: nat"
  from assms have d: "?b div 16 < 16"
    by simp
  have m: "?b mod 16 < 16"
    by simp
  note h = hexValue_hex [OF d] hexValue_hex [OF m]
  show "scanString (backslash # CHR ''u'' # CHR ''0'' # CHR ''0'' # hex ! (?b div 16)
                      # hex ! (?b mod 16) # ys)
           = map_option (\<lambda>(l, r). (backslash # CHR ''u'' # CHR ''0'' # CHR ''0''
                                     # hex ! (?b div 16) # hex ! (?b mod 16) # l, r))
               (scanString ys)"
    by (rule scan_u) (simp_all add: h hex_digits)
  have g: "getu4 (backslash # CHR ''u'' # CHR ''0'' # CHR ''0'' # hex ! (?b div 16)
                   # hex ! (?b mod 16) # ys) = Some ?b"
  proof -
    have "0 * 4096 + 0 * 256 + ?b div 16 * 16 + ?b mod 16 = ?b"
      by simp
    then show ?thesis
      using getu4_hex [OF hex_digits(1) hex_digits(1) h, of ys] by (simp only:)
  qed
  have s: "\<not> IsSurrogate ?b"
    using assms by (simp add: IsSurrogate_def)
  have e: "EncodeRune ?b = [c]"
    using assms by (simp add: EncodeRune_def)
  show "unquote (backslash # CHR ''u'' # CHR ''0'' # CHR ''0'' # hex ! (?b div 16)
                   # hex ! (?b mod 16) # ys)
           = map_option ((#) c) (unquote ys)"
    unfolding unquote_u [OF g s] e by (simp add: cons_append_op)
qed

lemma unit_fffd:
  shows "scanString (backslash # CHR ''u'' # CHR ''f'' # CHR ''f'' # CHR ''f'' # CHR ''d'' # ys)
           = map_option (\<lambda>(l, r). (backslash # CHR ''u'' # CHR ''f'' # CHR ''f'' # CHR ''f''
                                     # CHR ''d'' # l, r)) (scanString ys)"
    and "unquote (backslash # CHR ''u'' # CHR ''f'' # CHR ''f'' # CHR ''f'' # CHR ''d'' # ys)
           = map_option ((@) (EncodeRune RuneError)) (unquote ys)"
proof -
  show "scanString (backslash # CHR ''u'' # CHR ''f'' # CHR ''f'' # CHR ''f'' # CHR ''d'' # ys)
           = map_option (\<lambda>(l, r). (backslash # CHR ''u'' # CHR ''f'' # CHR ''f'' # CHR ''f''
                                     # CHR ''d'' # l, r)) (scanString ys)"
    by (rule scan_u) (simp_all add: hex_digits)
  have "(15::nat) * 4096 + 15 * 256 + 15 * 16 + 13 = RuneError"
    by (simp add: RuneError_def)
  then have g: "getu4 (backslash # CHR ''u'' # CHR ''f'' # CHR ''f'' # CHR ''f'' # CHR ''d'' # ys)
             = Some RuneError"
    using getu4_hex [OF hex_digits(3) hex_digits(3) hex_digits(3) hex_digits(4), of ys]
    by (simp only:)
  have s: "\<not> IsSurrogate RuneError"
    by (simp add: IsSurrogate_def RuneError_def)
  show "unquote (backslash # CHR ''u'' # CHR ''f'' # CHR ''f'' # CHR ''f'' # CHR ''d'' # ys)
           = map_option ((@) (EncodeRune RuneError)) (unquote ys)"
    by (rule unquote_u [OF g s])
qed

lemma unit_202x:
  assumes "r = 0x2028 \<or> r = 0x2029"
  shows "scanString (backslash # CHR ''u'' # CHR ''2'' # CHR ''0'' # CHR ''2'' # hex ! (r mod 16) # ys)
           = map_option (\<lambda>(l, r'). (backslash # CHR ''u'' # CHR ''2'' # CHR ''0'' # CHR ''2''
                                      # hex ! (r mod 16) # l, r')) (scanString ys)"
    and "unquote (backslash # CHR ''u'' # CHR ''2'' # CHR ''0'' # CHR ''2'' # hex ! (r mod 16) # ys)
           = map_option ((@) (EncodeRune r)) (unquote ys)"
proof -
  have m: "r mod 16 < 16"
    by simp
  note h = hexValue_hex [OF m]
  show "scanString (backslash # CHR ''u'' # CHR ''2'' # CHR ''0'' # CHR ''2'' # hex ! (r mod 16) # ys)
           = map_option (\<lambda>(l, r'). (backslash # CHR ''u'' # CHR ''2'' # CHR ''0'' # CHR ''2''
                                      # hex ! (r mod 16) # l, r')) (scanString ys)"
    by (rule scan_u) (simp_all add: hex_digits h)
  from assms have v: "2 * 4096 + 0 * 256 + 2 * 16 + r mod 16 = r"
    by auto
  have g: "getu4 (backslash # CHR ''u'' # CHR ''2'' # CHR ''0'' # CHR ''2'' # hex ! (r mod 16) # ys)
             = Some r"
    using getu4_hex [OF hex_digits(2) hex_digits(1) hex_digits(2) h, of ys]
    by (simp only: v)
  have s: "\<not> IsSurrogate r"
    using assms by (auto simp: IsSurrogate_def)
  show "unquote (backslash # CHR ''u'' # CHR ''2'' # CHR ''0'' # CHR ''2'' # hex ! (r mod 16) # ys)
           = map_option ((@) (EncodeRune r)) (unquote ys)"
    by (rule unquote_u [OF g s])
qed

lemma high_byte:
  assumes "0x80 \<le> (of_char x :: nat)"
  shows "x \<noteq> quote" "x \<noteq> backslash" "\<not> (of_char x :: nat) < 0x20" "\<not> (of_char x :: nat) < 0x80"
  using assms by (auto simp: quote_def backslash_def)

lemma scanString_high:
  assumes "\<forall>x \<in> set xs. 0x80 \<le> (of_char x :: nat)"
  shows "scanString (xs @ ys) = map_option (\<lambda>(l, r). (xs @ l, r)) (scanString ys)"
  using assms
proof (induction xs)
  case Nil
  show ?case
    by (simp add: option.map_ident)
next
  case (Cons x xs)
  then have "0x80 \<le> (of_char x :: nat)"
    by simp
  note h = high_byte [OF this]
  from Cons show ?case
    by (simp add: h option.map_comp comp_def case_prod_unfold)
qed

lemma unit_raw:
  assumes d: "DecodeRune (c # cs) = (r, n)" and hi: "0x80 \<le> (of_char c :: nat)"
    and v: "\<not> (r = RuneError \<and> n = 1)"
  shows "scanString (take n (c # cs) @ ys)
           = map_option (\<lambda>(l, r'). (take n (c # cs) @ l, r')) (scanString ys)"
    and "unquote (take n (c # cs) @ ys) = map_option ((@) (take n (c # cs))) (unquote ys)"
proof -
  note V = DecodeRune_valid [OF d hi v]
  show "scanString (take n (c # cs) @ ys)
           = map_option (\<lambda>(l, r'). (take n (c # cs) @ l, r')) (scanString ys)"
    using V(4) by (rule scanString_high)
  from V(1) obtain m where m: "n = Suc m"
    by (cases n) simp_all
  have t: "take n (c # cs) @ ys = c # (take m cs @ ys)"
    by (simp add: m)
  from V(2) m have l: "length (take m cs) = m"
    by simp
  have dr: "drop (n - 1) (take m cs @ ys) = ys"
    using l by (simp add: m)
  have d': "DecodeRune (c # (take m cs @ ys)) = (r, n)"
    using V(5) [of ys] by (simp only: t)
  note h = high_byte [OF hi]
  have "unquote (c # (take m cs @ ys)) = map_option ((@) (EncodeRune r)) (unquote ys)"
    by (simp only: unquote.simps h d' dr if_False prod.case simp_thms)
  then show "unquote (take n (c # cs) @ ys) = map_option ((@) (take n (c # cs))) (unquote ys)"
    by (simp only: t [symmetric] V(3))
qed

lemma escape_step:
  assumes "jsonEscape s = pre @ jsonEscape t" and "coerceUTF8 s = out @ coerceUTF8 t"
    and "\<And>ys. scanString (pre @ ys) = map_option (\<lambda>(l, r). (pre @ l, r)) (scanString ys)"
    and "\<And>ys. unquote (pre @ ys) = map_option ((@) out) (unquote ys)"
    and "scanString (jsonEscape t @ quote # rest) = Some (jsonEscape t, rest)
         \<and> unquote (jsonEscape t) = Some (coerceUTF8 t)"
  shows "scanString (jsonEscape s @ quote # rest) = Some (jsonEscape s, rest)
         \<and> unquote (jsonEscape s) = Some (coerceUTF8 s)"
  using assms by (simp del: scanString.simps unquote.simps jsonEscape.simps coerceUTF8.simps)

lemma jsonEscape_round_trip:
  "scanString (jsonEscape s @ quote # rest) = Some (jsonEscape s, rest)
   \<and> unquote (jsonEscape s) = Some (coerceUTF8 s)"
proof (induction s rule: length_induct)
  case (1 s)
  show ?case
  proof (cases s)
    case Nil
    then show ?thesis
      by simp
  next
    case (Cons c cs)
    let ?b = "of_char c :: nat"
    have IH: "scanString (jsonEscape t @ quote # rest) = Some (jsonEscape t, rest)
              \<and> unquote (jsonEscape t) = Some (coerceUTF8 t)" if "length t \<le> length cs" for t
      using 1 that Cons by simp
    show ?thesis
    proof (cases "?b < 0x80")
      case ascii: True
      have co: "coerceUTF8 s = [c] @ coerceUTF8 cs"
        using ascii Cons by simp
      consider (safe) "htmlSafeSet ?b"
        | (pair) "\<not> htmlSafeSet ?b" "c = backslash \<or> c = quote"
        | (lf) "\<not> htmlSafeSet ?b" "\<not> (c = backslash \<or> c = quote)" "?b = 0x0A"
        | (cr) "\<not> htmlSafeSet ?b" "\<not> (c = backslash \<or> c = quote)" "?b = 0x0D"
        | (tab) "\<not> htmlSafeSet ?b" "\<not> (c = backslash \<or> c = quote)" "?b = 0x09"
        | (ctl) "\<not> htmlSafeSet ?b" "\<not> (c = backslash \<or> c = quote)" "?b \<noteq> 0x0A" "?b \<noteq> 0x0D"
            "?b \<noteq> 0x09"
        by blast
      then show ?thesis
      proof cases
        case safe
        have "jsonEscape s = [c] @ jsonEscape cs"
          using ascii safe Cons by simp
        then show ?thesis
          using co by (rule escape_step) (simp_all only: append_Cons append_Nil unit_safe [OF safe] IH cons_append_op)
      next
        case pair
        have "jsonEscape s = [backslash, c] @ jsonEscape cs"
          using ascii pair Cons by simp
        then show ?thesis
          using co by (rule escape_step) (simp_all only: append_Cons append_Nil unit_pair [OF pair(2)] IH cons_append_op)
      next
        case lf
        then have "?b = of_char (CHR 0x0A)"
          by simp
        then have c: "c = CHR 0x0A"
          by (rule of_char_eqI)
        have "jsonEscape s = [backslash, CHR ''n''] @ jsonEscape cs"
          using ascii lf Cons by simp
        then show ?thesis
          using co by (rule escape_step) (simp_all only: append_Cons append_Nil unit_ctl IH cons_append_op c)
      next
        case cr
        then have "?b = of_char (CHR 0x0D)"
          by simp
        then have c: "c = CHR 0x0D"
          by (rule of_char_eqI)
        have "jsonEscape s = [backslash, CHR ''r''] @ jsonEscape cs"
          using ascii cr Cons by simp
        then show ?thesis
          using co by (rule escape_step) (simp_all only: append_Cons append_Nil unit_ctl IH cons_append_op c)
      next
        case tab
        then have "?b = of_char (CHR 0x09)"
          by simp
        then have c: "c = CHR 0x09"
          by (rule of_char_eqI)
        have "jsonEscape s = [backslash, CHR ''t''] @ jsonEscape cs"
          using ascii tab Cons by simp
        then show ?thesis
          using co by (rule escape_step) (simp_all only: append_Cons append_Nil unit_ctl IH cons_append_op c)
      next
        case ctl
        have "jsonEscape s = [backslash, CHR ''u'', CHR ''0'', CHR ''0'', hex ! (?b div 16),
                              hex ! (?b mod 16)] @ jsonEscape cs"
          using ascii ctl Cons by (simp add: Let_def)
        then show ?thesis
          using co by (rule escape_step) (simp_all only: append_Cons append_Nil unit_u00 [OF ascii] IH cons_append_op)
      qed
    next
      case high: False
      then have hi: "0x80 \<le> ?b"
        by simp
      obtain r n where d: "DecodeRune (c # cs) = (r, n)"
        by (cases "DecodeRune (c # cs)")
      show ?thesis
      proof (cases "r = RuneError \<and> n = 1")
        case True
        have "jsonEscape s = [backslash, CHR ''u'', CHR ''f'', CHR ''f'', CHR ''f'', CHR ''d'']
                             @ jsonEscape cs"
          using high d True Cons by simp
        moreover have "coerceUTF8 s = EncodeRune RuneError @ coerceUTF8 cs"
          using high d True Cons by simp
        ultimately show ?thesis
          by (rule escape_step) (simp_all only: append_Cons append_Nil unit_fffd IH)
      next
        case valid: False
        note V = DecodeRune_valid [OF d hi valid]
        from V(1) have len: "length (drop (n - 1) cs) \<le> length cs"
          by simp
        have co: "coerceUTF8 s = take n (c # cs) @ coerceUTF8 (drop (n - 1) cs)"
          using high d valid Cons by auto
        show ?thesis
        proof (cases "r = 0x2028 \<or> r = 0x2029")
          case True
          have "jsonEscape s = [backslash, CHR ''u'', CHR ''2'', CHR ''0'', CHR ''2'',
                                hex ! (r mod 16)] @ jsonEscape (drop (n - 1) cs)"
            using high d valid True Cons by auto
          then show ?thesis
            using co
            by (rule escape_step)
               (simp_all only: append_Cons append_Nil unit_202x [OF True] IH [OF len] V(3) [symmetric])
        next
          case False
          have "jsonEscape s = take n (c # cs) @ jsonEscape (drop (n - 1) cs)"
            using high d valid False Cons by auto
          then show ?thesis
            using co
            by (rule escape_step) (simp_all only: unit_raw [OF d hi valid] IH [OF len])
        qed
      qed
    qed
  qed
qed

section \<open>The session state codec\<close>

lemma parseString_jsonEscape:
  "parseString (jsonEscape s @ quote # rest) = Some (coerceUTF8 s, rest)"
  using jsonEscape_round_trip [of s rest] by (simp add: parseString_def)

lemma quote_facts:
  "\<not> isSpace quote" "quote \<noteq> CHR ''{''" "quote \<noteq> CHR ''[''" "quote \<noteq> CHR ''}''"
  "\<not> isSpace (CHR ''{'')" "\<not> isSpace (CHR '':'')" "\<not> isSpace (CHR '','')"
  "\<not> isSpace (CHR ''}'')"
  by (simp_all add: quote_def isSpace_def)

lemma skipSpace_Cons: "\<not> isSpace c \<Longrightarrow> skipSpace (c # s) = c # s"
  by (simp add: skipSpace_def)

lemma parseValue_string:
  "parseValue (Suc f) d (quote # jsonEscape s @ quote # rest)
     = Some (JString (coerceUTF8 s), rest)"
  by (simp add: skipSpace_Cons quote_facts parseString_jsonEscape
        del: jsonEscape.simps coerceUTF8.simps)

lemma parseMembers_last:
  "parseMembers (Suc (Suc f)) d
     (quote # jsonEscape k @ quote # CHR '':'' # quote # jsonEscape v @ quote # CHR ''}'' # rest)
     = Some ([(coerceUTF8 k, JString (coerceUTF8 v))], rest)"
  by (simp add: skipSpace_Cons quote_facts parseString_jsonEscape parseValue_string
        del: jsonEscape.simps coerceUTF8.simps parseValue.simps)

lemma parseMembers_more:
  "parseMembers (Suc (Suc f)) d
     (quote # jsonEscape k @ quote # CHR '':'' # quote # jsonEscape v @ quote # CHR '','' # rest)
     = map_option (\<lambda>(ms, rest'). ((coerceUTF8 k, JString (coerceUTF8 v)) # ms, rest'))
         (parseMembers (Suc f) d rest)"
  by (simp add: skipSpace_Cons quote_facts parseString_jsonEscape parseValue_string
        del: jsonEscape.simps coerceUTF8.simps parseValue.simps)

lemma parseJSON_state:
  "parseJSON (''{'' @ jsonString k1 @ '':'' @ jsonString v1 @ '','' @ jsonString k2 @ '':''
              @ jsonString v2 @ ''}'')
     = Some (JObject [(coerceUTF8 k1, JString (coerceUTF8 v1)),
                      (coerceUTF8 k2, JString (coerceUTF8 v2))])"
proof -
  let ?m2 = "quote # jsonEscape k2 @ quote # CHR '':'' # quote # jsonEscape v2 @ quote # ''}''"
  let ?m1 = "quote # jsonEscape k1 @ quote # CHR '':'' # quote # jsonEscape v1 @ quote # CHR '','' # ?m2"
  let ?data = "CHR ''{'' # ?m1"
  have data: "''{'' @ jsonString k1 @ '':'' @ jsonString v1 @ '','' @ jsonString k2 @ '':''
              @ jsonString v2 @ ''}'' = ?data"
    by (simp add: jsonString_def del: jsonEscape.simps)
  obtain f where f: "2 * length ?data + 2 = Suc (Suc (Suc (Suc f)))"
    by (simp add: numeral_eq_Suc del: jsonEscape.simps)
  have m2: "parseMembers (Suc (Suc f)) (Suc 0) ?m2
              = Some ([(coerceUTF8 k2, JString (coerceUTF8 v2))], [])"
    by (rule parseMembers_last)
  have m1: "parseMembers (Suc (Suc (Suc f))) (Suc 0) ?m1
              = Some ([(coerceUTF8 k1, JString (coerceUTF8 v1)),
                       (coerceUTF8 k2, JString (coerceUTF8 v2))], [])"
    by (simp only: parseMembers_more m2 option.map prod.case)
  have "parseValue (Suc (Suc (Suc (Suc f)))) 0 ?data
          = Some (JObject [(coerceUTF8 k1, JString (coerceUTF8 v1)),
                           (coerceUTF8 k2, JString (coerceUTF8 v2))], [])"
    by (simp add: skipSpace_Cons quote_facts m1 maxNestingDepth_def
          del: jsonEscape.simps coerceUTF8.simps parseMembers.simps)
  then show ?thesis
    unfolding data by (simp only: parseJSON_def f) (simp add: skipSpace_def)
qed

lemma coerceUTF8_keys: "coerceUTF8 ''n'' = ''n''" "coerceUTF8 ''return_url'' = ''return_url''"
  by simp_all

lemma Unmarshal_Marshal:
  assumes "Marshal_SessionState st = Inr b"
  shows "Unmarshal_SessionState b \<lparr>Nonce = [], ReturnURL = []\<rparr>
           = Inr \<lparr>Nonce = coerceUTF8 (Nonce st), ReturnURL = coerceUTF8 (ReturnURL st)\<rparr>"
proof -
  from assms have b: "b = ''{'' @ jsonString ''n'' @ '':'' @ jsonString (Nonce st) @ '',''
          @ jsonString ''return_url'' @ '':'' @ jsonString (ReturnURL st) @ ''}''"
    by (simp add: Marshal_SessionState_def del: jsonEscape.simps)
  have p: "parseJSON b = Some (JObject [(''n'', JString (coerceUTF8 (Nonce st))),
                                        (''return_url'', JString (coerceUTF8 (ReturnURL st)))])"
    unfolding b parseJSON_state coerceUTF8_keys ..
  have e: "equalFold ''n'' ''n''" "\<not> equalFold ''n'' ''return_url''"
    "equalFold ''return_url'' ''return_url''"
    by (simp_all add: equalFold_def)
  show ?thesis
    by (simp add: Unmarshal_SessionState_def p storeMember_def e)
qed

lemma decodeState_encodeState:
  assumes "encodeState nonce returnUrl = Inr v"
  shows "decodeState v = Inr \<lparr>Nonce = coerceUTF8 nonce, ReturnURL = coerceUTF8 returnUrl\<rparr>"
proof -
  from assms obtain b where b: "Marshal_SessionState \<lparr>Nonce = nonce, ReturnURL = returnUrl\<rparr> = Inr b"
    and v: "v = EncodeToString b"
    by (auto simp: encodeState_def split: sum.splits)
  from Unmarshal_Marshal [OF b] show ?thesis
    by (simp add: decodeState_def v DecodeString_EncodeToString)
qed

lemma coerceUTF8_valid: "ValidString s \<Longrightarrow> coerceUTF8 s = s"
proof (induction s rule: length_induct)
  case (1 s)
  show ?case
  proof (cases s)
    case Nil
    then show ?thesis by simp
  next
    case (Cons c cs)
    show ?thesis
    proof (cases "(of_char c :: nat) < 0x80")
      case True
      with 1 Cons show ?thesis
        by simp
    next
      case False
      obtain r n where d: "DecodeRune (c # cs) = (r, n)"
        by (cases "DecodeRune (c # cs)")
      from 1(2) Cons False d have v: "\<not> (r = RuneError \<and> n = 1)"
        and t: "ValidString (drop (n - 1) cs)"
        by auto
      from False have hi: "0x80 \<le> (of_char c :: nat)"
        by simp
      note V = DecodeRune_valid [OF d hi v]
      from V(1) obtain m where m: "n = Suc m"
        by (cases n) simp_all
      have "coerceUTF8 (drop (n - 1) cs) = drop (n - 1) cs"
        using 1(1) t Cons by simp
      moreover have "take n (c # cs) @ drop (n - 1) cs = c # cs"
        by (simp add: m)
      ultimately show ?thesis
        using False d v Cons by auto
    qed
  qed
qed

lemma decodeState_invalid:
  assumes "(\<exists>err. DecodeString v = Inl err) \<or> (\<exists>b. DecodeString v = Inr b \<and> parseJSON b = None)"
  shows "\<exists>err. decodeState v = Inl err"
  using assms by (auto simp: decodeState_def Unmarshal_SessionState_def)

lemma Callback_undecodable:
  assumes "Method r = ''GET''" and "CookieNamed r StateCookieName = Some v"
    and "decodeState v = Inl err"
  shows "Callback w s r = Done [WriteHeader 400]"
  using assms
  by (simp add: Callback_def decodeState_def Let_def split: sum.splits)

text \<open>
  C9, as amended. The state value of a nonce and a return URL is the standard base64
  text of the JSON object that \<^verbatim>\<open>json.Marshal\<close> writes for them, with the members
  \<open>n\<close> and \<open>return_url\<close> in this order; the bytes of that object parse as JSON, and each
  member holds its string with every byte that is not part of a valid UTF-8 sequence
  replaced by U+FFFD. Decoding the state value gives that pair; where the nonce and the
  return URL are valid UTF-8 it is the original pair, whatever characters the URL holds.
  A value that is not valid base64, or whose bytes are not valid JSON, fails to decode,
  and a GET request to the callback whose state cookie holds it is answered 400.
\<close>

theorem encodeState_round_trip:
  "(\<exists>b. b = ''{'' @ jsonString ''n'' @ '':'' @ jsonString nonce @ '',''
              @ jsonString ''return_url'' @ '':'' @ jsonString returnUrl @ ''}''
        \<and> encodeState nonce returnUrl = Inr (EncodeToString b)
        \<and> DecodeString (EncodeToString b) = Inr b
        \<and> parseJSON b = Some (JObject [(''n'', JString (coerceUTF8 nonce)),
                                        (''return_url'', JString (coerceUTF8 returnUrl))])
        \<and> decodeState (EncodeToString b)
            = Inr \<lparr>Nonce = coerceUTF8 nonce, ReturnURL = coerceUTF8 returnUrl\<rparr>)
   \<and> (ValidString nonce \<and> ValidString returnUrl \<longrightarrow>
        (\<exists>v. encodeState nonce returnUrl = Inr v
           \<and> decodeState v = Inr \<lparr>Nonce = nonce, ReturnURL = returnUrl\<rparr>))
   \<and> ((\<exists>err. DecodeString v = Inl err) \<or> (\<exists>b. DecodeString v = Inr b \<and> parseJSON b = None) \<longrightarrow>
        (\<exists>err. decodeState v = Inl err)
        \<and> (Method r = ''GET'' \<and> CookieNamed r StateCookieName = Some v \<longrightarrow>
             Callback w s r = Done [WriteHeader 400]))"
proof (intro conjI impI)
  let ?b = "''{'' @ jsonString ''n'' @ '':'' @ jsonString nonce @ '',''
              @ jsonString ''return_url'' @ '':'' @ jsonString returnUrl @ ''}''"
  have e: "encodeState nonce returnUrl = Inr (EncodeToString ?b)"
    by (simp add: encodeState_def Marshal_SessionState_def del: jsonEscape.simps)
  have p: "parseJSON ?b = Some (JObject [(''n'', JString (coerceUTF8 nonce)),
                                        (''return_url'', JString (coerceUTF8 returnUrl))])"
    unfolding parseJSON_state coerceUTF8_keys ..
  have d: "decodeState (EncodeToString ?b)
             = Inr \<lparr>Nonce = coerceUTF8 nonce, ReturnURL = coerceUTF8 returnUrl\<rparr>"
    by (rule decodeState_encodeState [OF e])
  show "\<exists>b. b = ?b
        \<and> encodeState nonce returnUrl = Inr (EncodeToString b)
        \<and> DecodeString (EncodeToString b) = Inr b
        \<and> parseJSON b = Some (JObject [(''n'', JString (coerceUTF8 nonce)),
                                        (''return_url'', JString (coerceUTF8 returnUrl))])
        \<and> decodeState (EncodeToString b)
            = Inr \<lparr>Nonce = coerceUTF8 nonce, ReturnURL = coerceUTF8 returnUrl\<rparr>"
    using e p d DecodeString_EncodeToString [of ?b] by blast
  show "\<exists>v. encodeState nonce returnUrl = Inr v
           \<and> decodeState v = Inr \<lparr>Nonce = nonce, ReturnURL = returnUrl\<rparr>"
    if "ValidString nonce \<and> ValidString returnUrl"
    using that e d by (simp add: coerceUTF8_valid)
next
  assume a: "(\<exists>err. DecodeString v = Inl err) \<or> (\<exists>b. DecodeString v = Inr b \<and> parseJSON b = None)"
  from decodeState_invalid [OF a] show "\<exists>err. decodeState v = Inl err" .
next
  assume a: "(\<exists>err. DecodeString v = Inl err) \<or> (\<exists>b. DecodeString v = Inr b \<and> parseJSON b = None)"
    and g: "Method r = ''GET'' \<and> CookieNamed r StateCookieName = Some v"
  from decodeState_invalid [OF a] obtain err where "decodeState v = Inl err" ..
  with g show "Callback w s r = Done [WriteHeader 400]"
    by (simp add: Callback_undecodable)
qed

text \<open>
  The theorem at the nonce \<open>abc\<close> and a return URL with two query parameters, whose
  \<open>&\<close> is written as the escape \<open>u0026\<close> in the JSON text, and at the state value \<open>e2E=\<close>, the base64
  text of the two bytes \<open>{a\<close>, which are not JSON.
\<close>

theorem encodeState_round_trip_witness:
  "ValidString ''abc'' \<and> ValidString ''/apps?name=a&ns=b''
   \<and> encodeState ''abc'' ''/apps?name=a&ns=b''
       = Inr ''eyJuIjoiYWJjIiwicmV0dXJuX3VybCI6Ii9hcHBzP25hbWU9YVx1MDAyNm5zPWIifQ==''
   \<and> decodeState ''eyJuIjoiYWJjIiwicmV0dXJuX3VybCI6Ii9hcHBzP25hbWU9YVx1MDAyNm5zPWIifQ==''
       = Inr \<lparr>Nonce = ''abc'', ReturnURL = ''/apps?name=a&ns=b''\<rparr>
   \<and> DecodeString ''e2E='' = Inr ''{a'' \<and> parseJSON ''{a'' = None
   \<and> Method (callbackRequest ''code-1'' ''e2E='' ''e2E='') = ''GET''
   \<and> CookieNamed (callbackRequest ''code-1'' ''e2E='' ''e2E='') StateCookieName = Some ''e2E=''
   \<and> (\<exists>err. decodeState ''e2E='' = Inl err)
   \<and> Callback grantingWorld oidcServer (callbackRequest ''code-1'' ''e2E='' ''e2E='')
       = Done [WriteHeader 400]"
proof -
  have enc: "encodeState ''abc'' ''/apps?name=a&ns=b''
      = Inr ''eyJuIjoiYWJjIiwicmV0dXJuX3VybCI6Ii9hcHBzP25hbWU9YVx1MDAyNm5zPWIifQ==''"
    by (simp add: encodeState_def Marshal_SessionState_def jsonString_def json_eval base64_eval)
  have val: "ValidString ''abc'' \<and> ValidString ''/apps?name=a&ns=b''"
    by simp
  have bad: "DecodeString ''e2E='' = Inr ''{a'' \<and> parseJSON ''{a'' = None"
    by (simp add: base64_eval json_eval)
  have req: "Method (callbackRequest ''code-1'' ''e2E='' ''e2E='') = ''GET''
     \<and> CookieNamed (callbackRequest ''code-1'' ''e2E='' ''e2E='') StateCookieName = Some ''e2E=''"
    by (simp add: callbackRequest_def getRequest_def CookieNamed_def StateCookieName_def)
  from encodeState_round_trip [of "''abc''" "''/apps?name=a&ns=b''" "''e2E=''"
         "callbackRequest ''code-1'' ''e2E='' ''e2E=''" grantingWorld oidcServer]
  have rt: "\<exists>v. encodeState ''abc'' ''/apps?name=a&ns=b'' = Inr v
           \<and> decodeState v = Inr \<lparr>Nonce = ''abc'', ReturnURL = ''/apps?name=a&ns=b''\<rparr>"
    and rej: "(\<exists>err. decodeState ''e2E='' = Inl err)
        \<and> Callback grantingWorld oidcServer (callbackRequest ''code-1'' ''e2E='' ''e2E='')
            = Done [WriteHeader 400]"
    using val bad req by blast+
  from rt enc have "decodeState ''eyJuIjoiYWJjIiwicmV0dXJuX3VybCI6Ii9hcHBzP25hbWU9YVx1MDAyNm5zPWIifQ==''
       = Inr \<lparr>Nonce = ''abc'', ReturnURL = ''/apps?name=a&ns=b''\<rparr>"
    by (auto simp del: jsonEscape.simps)
  with enc val bad req rej show ?thesis
    by blast
qed

text \<open>
  C9 as stated fails on a return URL that is not valid UTF-8: the byte \<open>0xFF\<close> is written
  as the escape \<open>ufffd\<close> into the JSON text, and decoding gives the three bytes of U+FFFD in its place.
\<close>

theorem encodeState_round_trip_counterexample:
  "encodeState ''abc'' [CHR 0xFF] = Inr ''eyJuIjoiYWJjIiwicmV0dXJuX3VybCI6Ilx1ZmZmZCJ9''
   \<and> decodeState ''eyJuIjoiYWJjIiwicmV0dXJuX3VybCI6Ilx1ZmZmZCJ9''
       = Inr \<lparr>Nonce = ''abc'', ReturnURL = [CHR 0xEF, CHR 0xBF, CHR 0xBD]\<rparr>
   \<and> [CHR 0xEF, CHR 0xBF, CHR 0xBD] \<noteq> [CHR 0xFF]"
proof -
  have "encodeState ''abc'' [CHR 0xFF] = Inr ''eyJuIjoiYWJjIiwicmV0dXJuX3VybCI6Ilx1ZmZmZCJ9''"
    by (simp add: encodeState_def Marshal_SessionState_def jsonString_def json_eval base64_eval)
  moreover have "decodeState ''eyJuIjoiYWJjIiwicmV0dXJuX3VybCI6Ilx1ZmZmZCJ9''
       = Inr \<lparr>Nonce = ''abc'', ReturnURL = [CHR 0xEF, CHR 0xBF, CHR 0xBD]\<rparr>"
    by (simp add: decodeState_def json_eval base64_eval)
  ultimately show ?thesis
    by simp
qed

end
